theory Spec2Isabelle
  imports Complex_Main
begin

section \<open>Python strings\<close>

text \<open>
  A Python \<^verbatim>\<open>str\<close> is a sequence of Unicode code points; \<open>ord c\<close> is the code point
  itself. String literals of the source are written with \<open>py\<close>. The values of the
  \<^verbatim>\<open>'status'\<close> key and the option strings handed to the engine are ASCII literals of
  the source and are kept as \<open>string\<close>.
\<close>

type_synonym pystr = "nat list"

definition py :: "string \<Rightarrow> pystr" where
  "py s = map of_char s"

text \<open>\<^verbatim>\<open>needle in haystack\<close> on strings.\<close>

fun str_in :: "pystr \<Rightarrow> pystr \<Rightarrow> bool" where
  "str_in needle [] = (needle = [])"
| "str_in needle (c # cs) = (take (length needle) (c # cs) = needle \<or> str_in needle cs)"

definition endswith :: "pystr \<Rightarrow> pystr \<Rightarrow> bool" where
  "endswith s x = (length x \<le> length s \<and> drop (length s - length x) s = x)"

text \<open>
  \<^verbatim>\<open>str.lower\<close>, on the letters A-Z. No code point outside ASCII lowers to one of
  the characters of \<^verbatim>\<open>.mp3\<close> or \<^verbatim>\<open>.mp4\<close>, the only use the source makes of the result.
\<close>

definition lower :: "pystr \<Rightarrow> pystr" where
  "lower s = map (\<lambda>c. if 65 \<le> c \<and> c \<le> 90 then c + 32 else c) s"

text \<open>\<^verbatim>\<open>s.rsplit('.', 1)[0]\<close>: the part before the last dot, all of \<open>s\<close> without one.\<close>

definition rsplit_dot :: "pystr \<Rightarrow> pystr" where
  "rsplit_dot s = (if 46 \<in> set s then rev (tl (dropWhile (\<lambda>c. c \<noteq> 46) (rev s))) else s)"

text \<open>\<^verbatim>\<open>os.path.basename\<close> with the separator \<^verbatim>\<open>/\<close>.\<close>

definition basename :: "pystr \<Rightarrow> pystr" where
  "basename p = rev (takeWhile (\<lambda>c. c \<noteq> 47) (rev p))"

text \<open>Decimal \<^verbatim>\<open>str\<close> of an integer, as an f-string inserts it.\<close>

function digits :: "nat \<Rightarrow> string" where
  "digits n = (if n < 10 then [char_of (48 + n)] else digits (n div 10) @ [char_of (48 + n mod 10)])"
  by pat_completeness auto
termination
  by (relation "measure id") auto

declare digits.simps [simp del]

definition str_int :: "int \<Rightarrow> string" where
  "str_int i = (if i < 0 then CHR ''-'' # digits (nat (- i)) else digits (nat i))"

section \<open>The filename sanitizer\<close>

text \<open>The characters of the class \<^verbatim>\<open>[<>:"/\|?*]\<close>.\<close>

definition reserved :: "nat \<Rightarrow> bool" where
  "reserved c = (c \<in> set [60, 62, 58, 34, 47, 92, 124, 63, 42])"

text \<open>
  The code points that \<^verbatim>\<open>\s\<close> matches in a \<^verbatim>\<open>str\<close> pattern and that \<^verbatim>\<open>str.strip()\<close>
  removes: those for which \<^verbatim>\<open>str.isspace\<close> holds.
\<close>

definition isspace :: "nat \<Rightarrow> bool" where
  "isspace c = (c \<in> set [9, 10, 11, 12, 13, 28, 29, 30, 31, 32, 133, 160, 5760,
      8192, 8193, 8194, 8195, 8196, 8197, 8198, 8199, 8200, 8201, 8202,
      8232, 8233, 8239, 8287, 12288])"

text \<open>\<^verbatim>\<open>re.sub(r'\s+', ' ', s)\<close>: every maximal run of whitespace becomes one space.\<close>

function sub_spaces :: "pystr \<Rightarrow> pystr" where
  "sub_spaces [] = []"
| "sub_spaces (c # cs) =
     (if isspace c then 32 # sub_spaces (dropWhile isspace cs) else c # sub_spaces cs)"
  by pat_completeness auto
termination
  by (relation "measure length") (auto simp: less_Suc_eq_le length_dropWhile_le)

definition strip :: "pystr \<Rightarrow> pystr" where
  "strip s = rev (dropWhile isspace (rev (dropWhile isspace s)))"

definition sanitize_filename :: "pystr \<Rightarrow> pystr" where
  "sanitize_filename filename =
     (let filename = filter (\<lambda>c. \<not> reserved c) filename;
          filename = filter (\<lambda>c. c < 65536 \<and> (c < 0x1F600 \<or> c > 0x1FAFF)) filename;
          filename = filter (\<lambda>c. \<not> (0x10000 \<le> c \<and> c \<le> 0x10FFFF)) filename;
          filename = strip (sub_spaces filename)
      in filename)"

text \<open>Properties of a sanitized name: whitespace only as single spaces, none at the ends.\<close>

definition single_spaced :: "pystr \<Rightarrow> bool" where
  "single_spaced s = (successively (\<lambda>a b. \<not> (isspace a \<and> isspace b)) s
                      \<and> list_all (\<lambda>c. isspace c \<longrightarrow> c = 32) s)"

definition trimmed :: "pystr \<Rightarrow> bool" where
  "trimmed s = (s = [] \<or> (\<not> isspace (hd s) \<and> \<not> isspace (last s)))"

section \<open>Job records and the registry\<close>

text \<open>
  A Python number is an \<^verbatim>\<open>int\<close> or a \<^verbatim>\<open>float\<close>; a float is the rational it stands for.
  The engine reports a number or \<^verbatim>\<open>None\<close>.
\<close>

datatype number = PyInt int | PyFloat rat

datatype pynum = PyNone | Num number

definition value_of :: "number \<Rightarrow> rat" where
  "value_of n = (case n of PyInt i \<Rightarrow> of_int i | PyFloat x \<Rightarrow> x)"

text \<open>
  Binary floating point, as the program computes with it. The nearest integer, a tie
  going to the even one:
\<close>

definition round_half_even :: "rat \<Rightarrow> int" where
  "round_half_even y =
     (let f = \<lfloor>y\<rfloor>; d = y - of_int f
      in if d < 1 / 2 then f else if d > 1 / 2 then f + 1 else if even f then f else f + 1)"

text \<open>
  The exponent \<open>e\<close> with \<open>2 ^ e \<le> x < 2 ^ (e + 1)\<close> of a positive \<open>x\<close>, found by halving or
  doubling at most \<open>n\<close> times; 2200 steps reach every exponent of a double.
\<close>

primrec binade :: "nat \<Rightarrow> rat \<Rightarrow> int" where
  "binade 0 x = 0"
| "binade (Suc n) x =
     (if 2 \<le> x then binade n (x / 2) + 1 else if x < 1 then binade n (x * 2) - 1 else 0)"

text \<open>
  The double nearest to \<open>x\<close> (IEEE 754 binary64, round to nearest, ties to even): 53
  significant bits, and below \<open>2 ^ - 1022\<close> the fixed spacing of the subnormal numbers.
  Beyond the largest double (about \<open>1.8 * 10 ^ 308\<close>) Python overflows; no byte count
  comes near, and the model does not follow it there.
\<close>

definition fl :: "rat \<Rightarrow> rat" where
  "fl x =
     (if x = 0 then 0
      else (let a = \<bar>x\<bar>;
                e = max (binade 2200 a) (- 1022);
                u = (if 52 \<le> e then 2 ^ nat (e - 52) else 1 / 2 ^ nat (52 - e))
            in sgn x * (of_int (round_half_even (a / u)) * u)))"

text \<open>
  \<^verbatim>\<open>a / b\<close> for a divisor other than 0: the quotient of two ints is rounded once; any
  other pair is divided as floats, an int being converted first.
\<close>

definition py_truediv :: "number \<Rightarrow> number \<Rightarrow> rat" where
  "py_truediv a b =
     (case (a, b) of
        (PyInt i, PyInt j) \<Rightarrow> fl (of_int i / of_int j)
      | _ \<Rightarrow> fl (fl (value_of a) / fl (value_of b)))"

text \<open>
  \<^verbatim>\<open>round(x, 1)\<close> of a float: the value of \<open>x\<close> is rounded to a multiple of one tenth, a tie
  going to the even one, and the result is the double nearest to that decimal.
\<close>

definition py_round1 :: "rat \<Rightarrow> rat" where
  "py_round1 x = fl (of_int (round_half_even (x * 10)) / 10)"

text \<open>
  The dictionary stored under a download id. \<open>thumbnail\<close> and \<open>duration\<close> are \<open>None\<close>
  while the key is not in the dictionary; \<open>error\<close> is \<open>None\<close> for Python's \<^verbatim>\<open>None\<close>.
\<close>

record job =
  status :: string
  progress :: rat
  title :: pystr
  filename :: pystr
  error :: "pystr option"
  speed :: pynum
  eta :: pynum
  thumbnail :: "pystr option"
  duration :: "rat option"

type_synonym registry = "pystr \<rightharpoonup> job"

text \<open>\<^verbatim>\<open>d.get(key, default)\<close>, the key's entry being \<open>None\<close> when the key is absent.\<close>

definition dict_get :: "'a option \<Rightarrow> 'a \<Rightarrow> 'a" where
  "dict_get entry dflt = (case entry of None \<Rightarrow> dflt | Some v \<Rightarrow> v)"

section \<open>Runs of the background thread\<close>

text \<open>
  A run of \<^verbatim>\<open>download_video\<close> is the sequence of its effects that another thread can
  tell apart: every assignment to the job's dictionary, every \<^verbatim>\<open>time.sleep\<close> and every
  download call, each with the dictionary as a poll would find it at that point. The
  log holds the newest event first.
\<close>

datatype action = Wrote | Slept nat | Called nat

record event =
  act :: action
  seen :: job

record run =
  cur :: job
  log :: "event list"

definition put :: "(job \<Rightarrow> job) \<Rightarrow> run \<Rightarrow> run" where
  "put f r = (let j = f (cur r) in \<lparr>cur = j, log = \<lparr>act = Wrote, seen = j\<rparr> # log r\<rparr>)"

definition mark :: "action \<Rightarrow> run \<Rightarrow> run" where
  "mark a r = \<lparr>cur = cur r, log = \<lparr>act = a, seen = cur r\<rparr> # log r\<rparr>"

definition trace :: "run \<Rightarrow> event list" where
  "trace r = rev (log r)"

section \<open>The progress hook\<close>

text \<open>
  The dictionary the engine passes to a progress hook. A field is \<open>None\<close> when the key
  is absent; the engine reports \<^verbatim>\<open>None\<close> for a total, a speed or an eta it does not know.
\<close>

record hook_dict =
  d_status :: string
  d_total_bytes :: "pynum option"
  d_total_bytes_estimate :: "pynum option"
  d_downloaded_bytes :: "number option"
  d_speed :: "pynum option"
  d_eta :: "pynum option"

definition truthy :: "pynum \<Rightarrow> bool" where
  "truthy v = (case v of PyNone \<Rightarrow> False | Num x \<Rightarrow> value_of x \<noteq> 0)"

text \<open>\<^verbatim>\<open>d.get('total_bytes') or d.get('total_bytes_estimate', 0)\<close>\<close>

definition hook_total :: "hook_dict \<Rightarrow> pynum" where
  "hook_total d =
     (let a = dict_get (d_total_bytes d) PyNone
      in if truthy a then a else dict_get (d_total_bytes_estimate d) (Num (PyInt 0)))"

text \<open>The message of the \<^verbatim>\<open>TypeError\<close> that \<^verbatim>\<open>None > 0\<close> raises.\<close>

definition type_error :: pystr where
  "type_error = [39] @ py ''>'' @ [39]
     @ py '' not supported between instances of 'NoneType' and 'int'' @ [39]"

text \<open>
  \<^verbatim>\<open>progress_hook(d, download_id)\<close> on the run of the job \<^verbatim>\<open>download_id\<close>: \<open>Inl\<close> is
  the message of the exception it raises, before any assignment.
\<close>

definition progress_hook :: "hook_dict \<Rightarrow> run \<Rightarrow> pystr + run" where
  "progress_hook d r =
     (if d_status d = ''downloading'' then
        (let total = hook_total d;
             downloaded = dict_get (d_downloaded_bytes d) (PyInt 0)
         in case total of
              PyNone \<Rightarrow> Inl type_error
            | Num t \<Rightarrow>
                if value_of t > 0 then
                  (let percent = fl (py_truediv downloaded t * 100);
                       r = put (\<lambda>j. j\<lparr>progress := py_round1 percent\<rparr>) r;
                       r = put (\<lambda>j. j\<lparr>speed := dict_get (d_speed d) (Num (PyInt 0))\<rparr>) r;
                       r = put (\<lambda>j. j\<lparr>eta := dict_get (d_eta d) (Num (PyInt 0))\<rparr>) r
                   in Inr r)
                else Inr r)
      else if d_status d = ''finished'' then
        (let r = put (\<lambda>j. j\<lparr>progress := 100\<rparr>) r;
             r = put (\<lambda>j. j\<lparr>status := ''processing''\<rparr>) r
         in Inr r)
      else Inr r)"

section \<open>Options for the engine\<close>

text \<open>
  What the process finds around it: the download directory and which paths exist.
  \<open>url_quote\<close> is \<^verbatim>\<open>urllib.parse.quote\<close>.
\<close>

record env =
  download_dir :: pystr
  path_exists :: "pystr \<Rightarrow> bool"
  url_quote :: "pystr \<Rightarrow> pystr"

record postprocessor =
  key :: string
  preferredcodec :: string
  preferredquality :: string

text \<open>
  \<^verbatim>\<open>ydl_opts\<close> after the \<^verbatim>\<open>None\<close> values are removed: an optional field is \<open>None\<close> when
  the key is not in the dictionary. The hook is not a field: the run applies it.
\<close>

record ydl_opts =
  format :: string
  merge_output_format :: "string option"
  outtmpl :: pystr
  quiet :: bool
  no_warnings :: bool
  extract_flat :: bool
  retries :: nat
  file_access_retries :: nat
  fragment_retries :: nat
  cookiefile :: "pystr option"
  postprocessors :: "postprocessor list option"

definition cookie_locations :: "pystr list" where
  "cookie_locations = [py ''/etc/secrets/cookies.txt'', py ''cookies.txt'']"

text \<open>Lines 74 to 121 of \<^verbatim>\<open>download_video\<close>: the options built from the quality.\<close>

definition build_ydl_opts :: "env \<Rightarrow> int \<Rightarrow> ydl_opts" where
  "build_ydl_opts e quality_height =
     (let format_str =
            (if quality_height = 0 then ''bestaudio/best''
             else ''bestvideo[height<='' @ str_int quality_height
                  @ ''][ext=mp4]+bestaudio[ext=m4a]/bestvideo[height<=''
                  @ str_int quality_height @ '']+bestaudio/best[height<=''
                  @ str_int quality_height @ '']/best'');
          output_template = download_dir e @ py ''/%(title)s.%(ext)s'';
          pps =
            (if quality_height = 0
             then [\<lparr>key = ''FFmpegExtractAudio'', preferredcodec = ''mp3'',
                    preferredquality = ''320''\<rparr>]
             else [])
      in \<lparr>format = format_str,
          merge_output_format = (if quality_height > 0 then Some ''mp4'' else None),
          outtmpl = output_template,
          quiet = True, no_warnings = True, extract_flat = False,
          retries = 10, file_access_retries = 10, fragment_retries = 10,
          cookiefile = find (path_exists e) cookie_locations,
          postprocessors = (if pps \<noteq> [] then Some pps else None)\<rparr>)"

section \<open>The engine and \<^verbatim>\<open>download_video\<close>\<close>

text \<open>
  The engine is outside the repository; a run is determined by what it does. The
  metadata call \<^verbatim>\<open>extract_info(url, download=False)\<close> raises (\<open>Inl\<close>, the message) or
  returns the info dictionary, a field being \<open>None\<close> when its key is absent. The \<open>k\<close>-th
  download call (\<^verbatim>\<open>extract_info(url, download=True)\<close> and \<^verbatim>\<open>prepare_filename\<close>) invokes
  the progress hook on each dictionary of \<open>hooks\<close> in turn and then raises or returns
  the file name. An exception of the hook leaves the call as the exception of the call.

  Each of the two calls is made in a block \<^verbatim>\<open>with yt_dlp.YoutubeDL(...) as ydl\<close>. When the
  block is left, by its last statement, by \<^verbatim>\<open>return\<close> or by an exception, the engine
  object is closed, and an exception of the closing replaces whatever left the block
  and reaches the handler of the enclosing \<^verbatim>\<open>try\<close>. \<open>metadata_exit\<close> and \<open>exit_error\<close> are
  the exception of the closing: \<open>None\<close> when the closing returns, or when the object was
  never made. All exceptions are instances of \<^verbatim>\<open>Exception\<close>, known by their messages.
\<close>

record info =
  info_title :: "pystr option"
  info_thumbnail :: "pystr option"
  info_duration :: "rat option"

record attempt =
  hooks :: "hook_dict list"
  outcome :: "pystr + pystr"
  exit_error :: "pystr option"

record engine =
  fetch_metadata :: "pystr \<Rightarrow> pystr + info"
  metadata_exit :: "pystr \<Rightarrow> pystr option"
  download_call :: "pystr \<Rightarrow> ydl_opts \<Rightarrow> nat \<Rightarrow> attempt"

text \<open>How a block of statements ends: normally, or by an exception with its message.\<close>

datatype ending = Done run | Raised pystr run

text \<open>Leaving a \<^verbatim>\<open>with\<close> block whose body ended as \<open>body\<close>, the closing raising \<open>closing\<close>.\<close>

definition leave :: "pystr option \<Rightarrow> ending \<Rightarrow> ending" where
  "leave closing body =
     (case closing of
        None \<Rightarrow> body
      | Some e \<Rightarrow> (case body of Done r \<Rightarrow> Raised e r | Raised m r \<Rightarrow> Raised e r))"

definition new_job :: job where
  "new_job = \<lparr>status = ''starting'', progress = 0, title = [], filename = [], error = None,
              speed = Num (PyInt 0), eta = Num (PyInt 0), thumbnail = None, duration = None\<rparr>"

fun run_hooks :: "hook_dict list \<Rightarrow> run \<Rightarrow> ending" where
  "run_hooks [] r = Done r"
| "run_hooks (d # ds) r =
     (case progress_hook d r of Inl e \<Rightarrow> Raised e r | Inr r' \<Rightarrow> run_hooks ds r')"

definition max_retries :: nat where
  "max_retries = 3"

definition is_file_lock :: "pystr \<Rightarrow> bool" where
  "is_file_lock error_str =
     (str_in (py ''WinError 32'') error_str
      \<or> str_in (py ''being used by another process'') error_str)"

text \<open>
  Lines 138 to 147: the body of the inner \<^verbatim>\<open>try\<close>, a \<^verbatim>\<open>with\<close> block that the \<^verbatim>\<open>return\<close> of
  line 147 leaves after the three assignments of a success.
\<close>

definition try_download :: "engine \<Rightarrow> pystr \<Rightarrow> ydl_opts \<Rightarrow> int \<Rightarrow> nat \<Rightarrow> run \<Rightarrow> ending" where
  "try_download eng url opts quality_height attempt r =
     (let a = download_call eng url opts attempt
      in leave (exit_error a)
           (case run_hooks (hooks a) (mark (Called attempt) r) of
              Raised e r \<Rightarrow> Raised e r
            | Done r \<Rightarrow>
                (case outcome a of
                   Inl e \<Rightarrow> Raised e r
                 | Inr name \<Rightarrow>
                     (let name = (if quality_height = 0 then rsplit_dot name @ py ''.mp3''
                                  else name);
                          r = put (\<lambda>j. j\<lparr>filename := name\<rparr>) r;
                          r = put (\<lambda>j. j\<lparr>status := ''completed''\<rparr>) r;
                          r = put (\<lambda>j. j\<lparr>progress := 100\<rparr>) r
                      in Done r))))"

text \<open>
  Lines 136 to 162: the loop over \<^verbatim>\<open>range(max_retries)\<close>, and \<^verbatim>\<open>raise last_error\<close>
  after it (raising \<^verbatim>\<open>None\<close> is a \<^verbatim>\<open>TypeError\<close>).
\<close>

fun retry_loop ::
  "engine \<Rightarrow> pystr \<Rightarrow> ydl_opts \<Rightarrow> int \<Rightarrow> nat list \<Rightarrow> pystr option \<Rightarrow> run \<Rightarrow> ending" where
  "retry_loop eng url opts quality_height [] last_error r =
     Raised (dict_get last_error (py ''exceptions must derive from BaseException'')) r"
| "retry_loop eng url opts quality_height (attempt # rest) last_error r =
     (case try_download eng url opts quality_height attempt r of
        Done r \<Rightarrow> Done r
      | Raised error_str r \<Rightarrow>
          if is_file_lock error_str then
            (if attempt < max_retries - 1 then
               (let r = mark (Slept (2 ^ attempt)) r;
                    r = put (\<lambda>j. j\<lparr>status := ''retrying''\<rparr>) r
                in retry_loop eng url opts quality_height rest (Some error_str) r)
             else Raised error_str r)
          else Raised error_str r)"

text \<open>
  Lines 74 to 162: the outer \<^verbatim>\<open>try\<close> after the record is stored. The metadata call and
  the four assignments after it are the \<^verbatim>\<open>with\<close> block of lines 124 to 130.
\<close>

definition download_body :: "env \<Rightarrow> engine \<Rightarrow> pystr \<Rightarrow> int \<Rightarrow> run \<Rightarrow> ending" where
  "download_body e eng url quality_height r =
     (let opts = build_ydl_opts e quality_height
      in case leave (metadata_exit eng url)
                (case fetch_metadata eng url of
                   Inl msg \<Rightarrow> Raised msg r
                 | Inr i \<Rightarrow>
                     (let t = sanitize_filename (dict_get (info_title i) (py ''video''));
                          r = put (\<lambda>j. j\<lparr>title := t\<rparr>) r;
                          r = put (\<lambda>j. j\<lparr>thumbnail := Some (dict_get (info_thumbnail i) [])\<rparr>) r;
                          r = put (\<lambda>j. j\<lparr>duration := Some (dict_get (info_duration i) 0)\<rparr>) r;
                          r = put (\<lambda>j. j\<lparr>status := ''downloading''\<rparr>) r
                      in Done r)) of
           Raised msg r \<Rightarrow> Raised msg r
         | Done r \<Rightarrow> retry_loop eng url opts quality_height [0..<max_retries] None r)"

text \<open>
  \<^verbatim>\<open>download_video(url, download_id, quality_height)\<close>: the run of the job stored under
  \<^verbatim>\<open>download_id\<close>. The first event is the assignment of the new record.
\<close>

definition download_video :: "env \<Rightarrow> engine \<Rightarrow> pystr \<Rightarrow> int \<Rightarrow> run" where
  "download_video e eng url quality_height =
     (case download_body e eng url quality_height
             \<lparr>cur = new_job, log = [\<lparr>act = Wrote, seen = new_job\<rparr>]\<rparr> of
        Done r \<Rightarrow> r
      | Raised msg r \<Rightarrow>
          (let r = put (\<lambda>j. j\<lparr>status := ''error''\<rparr>) r;
               r = put (\<lambda>j. j\<lparr>error := Some msg\<rparr>) r
           in r))"

text \<open>
  The registry \<^verbatim>\<open>downloads\<close> once the thread of the job \<^verbatim>\<open>download_id\<close> has performed
  the events \<open>es\<close>, a prefix of its trace: none yet, or the record of the last one.
\<close>

definition store :: "registry \<Rightarrow> pystr \<Rightarrow> event list \<Rightarrow> registry" where
  "store downloads download_id es =
     (if es = [] then downloads else downloads(download_id \<mapsto> seen (last es)))"

section \<open>The HTTP handlers\<close>

text \<open>The JSON body of \<^verbatim>\<open>POST /api/download\<close>; a field is \<open>None\<close> when its key is absent.\<close>

record download_request =
  req_url :: "pystr option"
  req_quality :: "int option"

record file_response =
  served_path :: pystr
  mimetype :: string
  content_disposition :: pystr

datatype response =
    Json_error nat string
  | Json_download_id pystr
  | Json_job job
  | Send_file file_response

text \<open>
  \<^verbatim>\<open>start_download\<close>, \<open>download_id\<close> being the fresh \<^verbatim>\<open>uuid4\<close>. It returns the response and
  the arguments of the thread it starts, if any. The handler itself does not assign
  to \<^verbatim>\<open>downloads\<close>: the registry it leaves is the one it found.
\<close>

definition start_download ::
  "download_request \<Rightarrow> pystr \<Rightarrow> registry \<Rightarrow> response \<times> (pystr \<times> pystr \<times> int) option \<times> registry" where
  "start_download data download_id downloads =
     (let url = dict_get (req_url data) [];
          quality_height =
            (case req_quality data of
               None \<Rightarrow> 4320
             | Some q \<Rightarrow> if q > 4320 then 4320 else q)
      in if url = [] then (Json_error 400 ''No URL provided'', None, downloads)
         else (Json_download_id download_id, Some (url, download_id, quality_height), downloads))"

definition get_progress :: "registry \<Rightarrow> pystr \<Rightarrow> response" where
  "get_progress downloads download_id =
     (case downloads download_id of
        None \<Rightarrow> Json_error 404 ''Download not found''
      | Some download \<Rightarrow> Json_job download)"

definition get_file :: "env \<Rightarrow> registry \<Rightarrow> pystr \<Rightarrow> response" where
  "get_file e downloads download_id =
     (case downloads download_id of
        None \<Rightarrow> Json_error 404 ''Download not found''
      | Some download \<Rightarrow>
          if status download \<noteq> ''completed'' then Json_error 400 ''Download not completed''
          else if \<not> path_exists e (filename download) then Json_error 404 ''File not found''
          else
            (let name = basename (filename download);
                 mp3 = endswith (lower name) (py ''.mp3'');
                 mime = (if mp3 then ''audio/mpeg'' else ''video/mp4'');
                 name = (if \<not> mp3 \<and> \<not> endswith (lower name) (py ''.mp4'')
                         then name @ py ''.mp4'' else name);
                 ascii_filename = map (\<lambda>c. if c < 128 then c else 95) name;
                 encoded_filename = url_quote e name
             in Send_file
                  \<lparr>served_path = filename download,
                   mimetype = mime,
                   content_disposition =
                     py ''attachment; filename='' @ [34] @ ascii_filename @ [34]
                     @ py ''; filename*=UTF-8'' @ [39, 39] @ encoded_filename\<rparr>))"

section \<open>Observations on runs\<close>

text \<open>The download calls of a run, by their attempt numbers, and its waits, in order.\<close>

definition calls :: "run \<Rightarrow> nat list" where
  "calls r = concat (map (\<lambda>e. case act e of Called k \<Rightarrow> [k] | _ \<Rightarrow> []) (trace r))"

definition sleeps :: "run \<Rightarrow> nat list" where
  "sleeps r = concat (map (\<lambda>e. case act e of Slept n \<Rightarrow> [n] | _ \<Rightarrow> []) (trace r))"

text \<open>
  The exception a download call ends with, if any: that of the closing of the engine
  object, or else that of the first callback that raises, or else that of the engine.
\<close>

definition hook_raises :: "hook_dict \<Rightarrow> bool" where
  "hook_raises d = (d_status d = ''downloading'' \<and> hook_total d = PyNone)"

definition attempt_error :: "attempt \<Rightarrow> pystr option" where
  "attempt_error a =
     (case exit_error a of
        Some e \<Rightarrow> Some e
      | None \<Rightarrow>
          if list_ex hook_raises (hooks a) then Some type_error
          else case outcome a of Inl m \<Rightarrow> Some m | Inr name \<Rightarrow> None)"

text \<open>The exception of the \<open>k\<close>-th download call of the job that \<^verbatim>\<open>download_video\<close> runs.\<close>

definition call_error :: "env \<Rightarrow> engine \<Rightarrow> pystr \<Rightarrow> int \<Rightarrow> nat \<Rightarrow> pystr option" where
  "call_error e eng url q k = attempt_error (download_call eng url (build_ydl_opts e q) k)"

text \<open>A failure of the class that is retried: its message tells of a locked file.\<close>

definition contention :: "pystr option \<Rightarrow> bool" where
  "contention x = (case x of None \<Rightarrow> False | Some m \<Rightarrow> is_file_lock m)"

text \<open>How a run has ended, given the exception of its last download call.\<close>

definition ended_as :: "pystr option \<Rightarrow> run \<Rightarrow> bool" where
  "ended_as x r =
     (case x of
        None \<Rightarrow> status (cur r) = ''completed''
      | Some m \<Rightarrow> status (cur r) = ''error'' \<and> error (cur r) = Some m)"

text \<open>
  The loop has ended as the exception \<open>x\<close> tells (none: the call returned), after the
  calls \<open>cs\<close> and the waits \<open>ss\<close>.
\<close>

definition outcome_is :: "pystr option \<Rightarrow> nat list \<Rightarrow> nat list \<Rightarrow> ending \<Rightarrow> bool" where
  "outcome_is x cs ss R =
     (case R of
        Done r \<Rightarrow> x = None \<and> status (cur r) = ''completed'' \<and> calls r = cs \<and> sleeps r = ss
      | Raised m r \<Rightarrow> x = Some m \<and> calls r = cs \<and> sleeps r = ss)"

text \<open>
  The three assignments of a success (lines 144 to 146) with the name they store, and
  the two of the handler of line 164.
\<close>

definition final_name :: "int \<Rightarrow> pystr \<Rightarrow> pystr" where
  "final_name q n = (if q = 0 then rsplit_dot n @ py ''.mp3'' else n)"

definition succeed :: "pystr \<Rightarrow> run \<Rightarrow> run" where
  "succeed name r =
     put (\<lambda>j. j\<lparr>progress := 100\<rparr>)
       (put (\<lambda>j. j\<lparr>status := ''completed''\<rparr>) (put (\<lambda>j. j\<lparr>filename := name\<rparr>) r))"

definition fail :: "pystr \<Rightarrow> run \<Rightarrow> run" where
  "fail msg r = put (\<lambda>j. j\<lparr>error := Some msg\<rparr>) (put (\<lambda>j. j\<lparr>status := ''error''\<rparr>) r)"

text \<open>
  A property \<open>S\<close> of records holds \<open>everywhere\<close> in a run when every record observed so
  far has it. It is \<open>stable\<close> when no assignment made outside the success and failure
  assignments destroys it, and the name \<open>n\<close> is \<open>finishing\<close> for it when the
  assignments of a success that stores \<open>n\<close> do not either.
\<close>

definition everywhere :: "(job \<Rightarrow> bool) \<Rightarrow> run \<Rightarrow> bool" where
  "everywhere S r = (S (cur r) \<and> list_all (\<lambda>ev. S (seen ev)) (log r))"

definition stable :: "(job \<Rightarrow> bool) \<Rightarrow> bool" where
  "stable S =
     (\<forall>j. S j \<longrightarrow>
        (\<forall>p. S (j\<lparr>progress := p\<rparr>)) \<and> (\<forall>v. S (j\<lparr>speed := v\<rparr>)) \<and> (\<forall>v. S (j\<lparr>eta := v\<rparr>))
        \<and> (\<forall>t. S (j\<lparr>title := t\<rparr>)) \<and> (\<forall>t. S (j\<lparr>thumbnail := t\<rparr>))
        \<and> (\<forall>t. S (j\<lparr>duration := t\<rparr>))
        \<and> S (j\<lparr>status := ''processing''\<rparr>) \<and> S (j\<lparr>status := ''retrying''\<rparr>)
        \<and> S (j\<lparr>status := ''downloading''\<rparr>))"

definition finishing :: "(job \<Rightarrow> bool) \<Rightarrow> pystr \<Rightarrow> bool" where
  "finishing S n =
     (\<forall>j. S j \<longrightarrow>
        S (j\<lparr>filename := n\<rparr>) \<and> S (j\<lparr>filename := n, status := ''completed''\<rparr>)
        \<and> S (j\<lparr>filename := n, status := ''completed'', progress := 100\<rparr>))"

text \<open>
  A record before any success or failure: no file name, no error, neither terminal
  status. A record before the failure assignments whose file name, once the status is
  \<^verbatim>\<open>completed\<close>, has the property \<open>P\<close>.
\<close>

definition pending :: "job \<Rightarrow> bool" where
  "pending j = (status j \<noteq> ''completed'' \<and> status j \<noteq> ''error'' \<and> filename j = []
                \<and> error j = None)"

definition sound :: "(pystr \<Rightarrow> bool) \<Rightarrow> job \<Rightarrow> bool" where
  "sound P j = (error j = None \<and> status j \<noteq> ''error''
                \<and> (status j = ''completed'' \<longrightarrow> P (filename j)))"

text \<open>
  What a later record \<open>b\<close> keeps of an earlier record \<open>a\<close>: the descriptive fields; and
  what it keeps of one whose status is \<^verbatim>\<open>error\<close>, or \<^verbatim>\<open>completed\<close>.
\<close>

definition kept :: "job \<Rightarrow> job \<Rightarrow> bool" where
  "kept a b =
     (filename b = filename a \<and> title b = title a \<and> thumbnail b = thumbnail a
      \<and> duration b = duration a \<and> speed b = speed a \<and> eta b = eta a)"

definition error_stays :: "job \<Rightarrow> job \<Rightarrow> bool" where
  "error_stays a b =
     (status a = ''error'' \<longrightarrow> status b = ''error'' \<and> progress b = progress a \<and> kept a b)"

definition completed_stays :: "job \<Rightarrow> job \<Rightarrow> bool" where
  "completed_stays a b =
     (status a = ''completed'' \<longrightarrow> status b = ''completed'' \<and> error b = error a \<and> kept a b)"

text \<open>
  The order of the events of a run. An event is \<open>calm\<close> when a wait of 1 finds the status
  \<^verbatim>\<open>downloading\<close>, \<^verbatim>\<open>processing\<close> or \<^verbatim>\<open>completed\<close> and a download call after the first
  finds \<^verbatim>\<open>retrying\<close>;
  \<open>follows a b\<close> tells what the event \<open>b\<close> right after a wait \<open>a\<close> is; the statuses that
  can come after \<^verbatim>\<open>retrying\<close> are \<open>late\<close>, and \<open>no_return a b\<close> tells that the later \<open>b\<close> has
  one of them if \<open>a\<close> has \<^verbatim>\<open>retrying\<close>; an event is \<open>awake\<close> when it is not a wait. A run is
  \<open>orderly\<close> when its log, newest event first, starts from the new record and keeps to
  all of these.
\<close>

definition calm :: "event \<Rightarrow> bool" where
  "calm ev =
     (case act ev of
        Wrote \<Rightarrow> True
      | Slept n \<Rightarrow>
          n = 1 \<longrightarrow> status (seen ev) = ''downloading'' \<or> status (seen ev) = ''processing''
                    \<or> status (seen ev) = ''completed''
      | Called k \<Rightarrow> k \<noteq> 0 \<longrightarrow> status (seen ev) = ''retrying'')"

definition follows :: "event \<Rightarrow> event \<Rightarrow> bool" where
  "follows a b =
     (case act a of
        Slept n \<Rightarrow> act b = Wrote \<and> status (seen b) = ''retrying''
      | _ \<Rightarrow> True)"

definition late :: "string \<Rightarrow> bool" where
  "late s = (s = ''retrying'' \<or> s = ''processing'' \<or> s = ''completed'' \<or> s = ''error'')"

definition no_return :: "event \<Rightarrow> event \<Rightarrow> bool" where
  "no_return a b = (status (seen a) = ''retrying'' \<longrightarrow> late (status (seen b)))"

definition awake :: "event \<Rightarrow> bool" where
  "awake ev = (case act ev of Slept n \<Rightarrow> False | _ \<Rightarrow> True)"

definition orderly :: "run \<Rightarrow> bool" where
  "orderly r =
     (log r \<noteq> [] \<and> seen (hd (log r)) = cur r \<and> awake (hd (log r))
      \<and> last (log r) = \<lparr>act = Wrote, seen = new_job\<rparr>
      \<and> list_all calm (log r)
      \<and> successively (\<lambda>b a. follows a b) (log r)
      \<and> sorted_wrt (\<lambda>b a. no_return a b) (log r)
      \<and> (\<not> late (status (cur r)) \<longrightarrow>
           list_all (\<lambda>ev. status (seen ev) \<noteq> ''retrying'') (log r)))"

section \<open>Example inputs\<close>

text \<open>Concrete surroundings, registries and hook dictionaries to evaluate the model on.\<close>

definition example_env :: env where
  "example_env = \<lparr>download_dir = py ''/srv'',
     path_exists = (\<lambda>p. p = py ''/srv/song.MP3'' \<or> p = py ''/srv/clip.webm''
                         \<or> p = py ''/srv/My Clip.mp3''),
     url_quote = (\<lambda>s. s)\<rparr>"

definition example_registry :: registry where
  "example_registry =
     [py ''a'' \<mapsto> new_job\<lparr>status := ''downloading''\<rparr>,
      py ''b'' \<mapsto> new_job\<lparr>status := ''completed'', filename := py ''/srv/gone.mp4''\<rparr>,
      py ''c'' \<mapsto> new_job\<lparr>status := ''completed'', filename := py ''/srv/song.MP3''\<rparr>,
      py ''d'' \<mapsto> new_job\<lparr>status := ''completed'', filename := py ''/srv/clip.webm''\<rparr>]"

definition hook_half :: hook_dict where
  "hook_half = \<lparr>d_status = ''downloading'', d_total_bytes = Some (Num (PyInt 100)),
     d_total_bytes_estimate = None, d_downloaded_bytes = Some (PyInt 50),
     d_speed = Some (Num (PyFloat 7)), d_eta = Some PyNone\<rparr>"

definition hook_third :: hook_dict where
  "hook_third = \<lparr>d_status = ''downloading'', d_total_bytes = Some PyNone,
     d_total_bytes_estimate = Some (Num (PyFloat 3)), d_downloaded_bytes = Some (PyInt 1),
     d_speed = None, d_eta = None\<rparr>"

definition hook_23_of_80 :: hook_dict where
  "hook_23_of_80 = \<lparr>d_status = ''downloading'', d_total_bytes = Some (Num (PyInt 80)),
     d_total_bytes_estimate = None, d_downloaded_bytes = Some (PyInt 23),
     d_speed = None, d_eta = None\<rparr>"

definition hook_unknown :: hook_dict where
  "hook_unknown = \<lparr>d_status = ''downloading'', d_total_bytes = Some PyNone,
     d_total_bytes_estimate = None, d_downloaded_bytes = Some (PyInt 1),
     d_speed = Some (Num (PyInt 9)), d_eta = Some (Num (PyInt 9))\<rparr>"

definition hook_none :: hook_dict where
  "hook_none = \<lparr>d_status = ''downloading'', d_total_bytes = None,
     d_total_bytes_estimate = Some PyNone, d_downloaded_bytes = Some (PyInt 1),
     d_speed = None, d_eta = None\<rparr>"

definition downloading_run :: run where
  "downloading_run = \<lparr>cur = new_job\<lparr>status := ''downloading''\<rparr>, log = []\<rparr>"

definition hook_finished :: hook_dict where
  "hook_finished = \<lparr>d_status = ''finished'', d_total_bytes = Some (Num (PyInt 100)),
     d_total_bytes_estimate = None, d_downloaded_bytes = Some (PyInt 100), d_speed = None,
     d_eta = None\<rparr>"

definition example_info :: info where
  "example_info = \<lparr>info_title = Some (py ''My: Clip''), info_thumbnail = None,
     info_duration = Some 12\<rparr>"

definition lock_message :: pystr where
  "lock_message = py ''[WinError 32] The process cannot access the file''"

text \<open>An engine whose first download call succeeds, after two callbacks.\<close>

definition engine_ok :: engine where
  "engine_ok = \<lparr>fetch_metadata = (\<lambda>url. Inr example_info), metadata_exit = (\<lambda>url. None),
     download_call = (\<lambda>url opts k.
        \<lparr>hooks = [hook_half, hook_finished], outcome = Inr (py ''/srv/My Clip.mp4''),
         exit_error = None\<rparr>)\<rparr>"

text \<open>An engine whose first download call finds the file locked and whose second succeeds.\<close>

definition engine_locked_once :: engine where
  "engine_locked_once = \<lparr>fetch_metadata = (\<lambda>url. Inr example_info),
     metadata_exit = (\<lambda>url. None),
     download_call = (\<lambda>url opts k.
        if k = 0 then \<lparr>hooks = [], outcome = Inl lock_message, exit_error = None\<rparr>
        else \<lparr>hooks = [], outcome = Inr (py ''/srv/My Clip.mp4''), exit_error = None\<rparr>)\<rparr>"

text \<open>An engine whose download calls all find the file locked.\<close>

definition engine_locked :: engine where
  "engine_locked = \<lparr>fetch_metadata = (\<lambda>url. Inr example_info), metadata_exit = (\<lambda>url. None),
     download_call = (\<lambda>url opts k.
        \<lparr>hooks = [], outcome = Inl lock_message, exit_error = None\<rparr>)\<rparr>"

text \<open>An engine whose download call fails for another reason.\<close>

definition engine_broken :: engine where
  "engine_broken = \<lparr>fetch_metadata = (\<lambda>url. Inr example_info), metadata_exit = (\<lambda>url. None),
     download_call = (\<lambda>url opts k.
        \<lparr>hooks = [hook_half], outcome = Inl (py ''HTTP Error 403''), exit_error = None\<rparr>)\<rparr>"

text \<open>
  An engine whose download call succeeds and whose closing then fails (it cannot
  write the cookie file back), and one whose first closing finds the file locked.
\<close>

definition engine_close_fails :: engine where
  "engine_close_fails = \<lparr>fetch_metadata = (\<lambda>url. Inr example_info),
     metadata_exit = (\<lambda>url. None),
     download_call = (\<lambda>url opts k.
        \<lparr>hooks = [], outcome = Inr (py ''/srv/My Clip.mp4''),
         exit_error = Some (py ''Read-only file system'')\<rparr>)\<rparr>"

definition engine_close_locked :: engine where
  "engine_close_locked = \<lparr>fetch_metadata = (\<lambda>url. Inr example_info),
     metadata_exit = (\<lambda>url. None),
     download_call = (\<lambda>url opts k.
        \<lparr>hooks = [], outcome = Inr (py ''/srv/My Clip.mp4''),
         exit_error = (if k = 0 then Some lock_message else None)\<rparr>)\<rparr>"

definition example_url :: pystr where
  "example_url = py ''https://example.com/v1''"

section \<open>The sanitizer is idempotent and its result is safe\<close>

lemma isspace_32: "isspace 32"
  by (simp add: isspace_def)

lemma sub_spaces_head:
  "sub_spaces s = [] \<longleftrightarrow> s = []"
  by (cases s) auto

lemma sub_spaces_hd_space:
  "s \<noteq> [] \<Longrightarrow> isspace (hd (sub_spaces s)) = isspace (hd s)"
  by (cases s) (auto simp: isspace_32)

lemma dropWhile_hd: "dropWhile P xs \<noteq> [] \<Longrightarrow> \<not> P (hd (dropWhile P xs))"
  using hd_dropWhile by blast

lemma single_spaced_sub_spaces: "single_spaced (sub_spaces s)"
proof (induction s rule: sub_spaces.induct)
  case 1
  show ?case by (simp add: single_spaced_def)
next
  case (2 c cs)
  show ?case
  proof (cases "isspace c")
    case True
    let ?r = "dropWhile isspace cs"
    have ih: "single_spaced (sub_spaces ?r)" using 2(1) True by simp
    have "?r = [] \<or> \<not> isspace (hd (sub_spaces ?r))"
      using dropWhile_hd[of isspace cs] sub_spaces_hd_space[of ?r] by auto
    then show ?thesis using True ih
      by (auto simp: single_spaced_def successively_Cons sub_spaces_head)
  next
    case False
    then show ?thesis using 2(2)
      by (auto simp: single_spaced_def successively_Cons)
  qed
qed

lemma sub_spaces_id: "single_spaced s \<Longrightarrow> sub_spaces s = s"
proof (induction s rule: sub_spaces.induct)
  case 1
  show ?case by simp
next
  case (2 c cs)
  show ?case
  proof (cases "isspace c")
    case True
    then have c: "c = 32" using 2(3) by (simp add: single_spaced_def)
    have "cs = [] \<or> \<not> isspace (hd cs)"
      using 2(3) True by (auto simp: single_spaced_def successively_Cons)
    then have d: "dropWhile isspace cs = cs" by (cases cs) auto
    have "single_spaced cs" using 2(3) by (auto simp: single_spaced_def successively_Cons)
    then show ?thesis using 2(1) True c d by simp
  next
    case False
    have "single_spaced cs" using 2(3) by (auto simp: single_spaced_def successively_Cons)
    then show ?thesis using 2(2) False by simp
  qed
qed

lemma successively_dropWhile:
  "successively P xs \<Longrightarrow> successively P (dropWhile Q xs)"
  using successively_append_iff[of P "takeWhile Q xs" "dropWhile Q xs"] by simp

lemma rstrip_prefix:
  "xs = rev (dropWhile Q (rev xs)) @ rev (takeWhile Q (rev xs))"
proof -
  have "rev (rev xs) = rev (takeWhile Q (rev xs) @ dropWhile Q (rev xs))"
    by (simp only: takeWhile_dropWhile_id)
  then show ?thesis by (simp only: rev_rev_ident rev_append)
qed

lemma successively_rstrip:
  assumes "successively P xs"
  shows "successively P (rev (dropWhile Q (rev xs)))"
proof -
  have "successively P (rev (dropWhile Q (rev xs)) @ rev (takeWhile Q (rev xs)))"
    using assms rstrip_prefix[of xs Q] by simp
  then show ?thesis by (simp only: successively_append_iff)
qed

lemma set_strip: "set (strip s) \<subseteq> set s"
proof
  fix c assume "c \<in> set (strip s)"
  then have "c \<in> set (dropWhile isspace (rev (dropWhile isspace s)))"
    by (simp add: strip_def)
  then have "c \<in> set (rev (dropWhile isspace s))" by (rule set_dropWhileD)
  then have "c \<in> set (dropWhile isspace s)" by simp
  then show "c \<in> set s" by (rule set_dropWhileD)
qed

lemma single_spaced_strip:
  assumes "single_spaced s"
  shows "single_spaced (strip s)"
proof -
  have "successively (\<lambda>a b. \<not> (isspace a \<and> isspace b)) (strip s)"
    unfolding strip_def using assms
    by (intro successively_rstrip successively_dropWhile) (simp add: single_spaced_def)
  moreover have "list_all (\<lambda>c. isspace c \<longrightarrow> c = 32) (strip s)"
    using assms set_strip[of s] by (auto simp: single_spaced_def list_all_iff)
  ultimately show ?thesis by (simp add: single_spaced_def)
qed

lemma trimmed_strip: "trimmed (strip s)"
proof (cases "strip s = []")
  case True
  then show ?thesis by (simp add: trimmed_def)
next
  case False
  let ?a = "dropWhile isspace s"
  let ?d = "dropWhile isspace (rev ?a)"
  have b: "strip s = rev ?d" by (simp add: strip_def)
  have d: "?d \<noteq> []" using False b by simp
  have a: "?a \<noteq> []"
  proof
    assume e: "?a = []"
    have "?d = []" unfolding e by simp
    with d show False by contradiction
  qed
  have "\<not> isspace (hd ?d)" using d by (rule dropWhile_hd)
  then have l: "\<not> isspace (last (strip s))" unfolding b last_rev .
  have "?a = strip s @ rev (takeWhile isspace (rev ?a))"
    unfolding b by (rule rstrip_prefix)
  then have "hd ?a = hd (strip s @ rev (takeWhile isspace (rev ?a)))" by simp
  moreover have "hd (strip s @ rev (takeWhile isspace (rev ?a))) = hd (strip s)"
    using False by (rule hd_append2)
  ultimately have "hd ?a = hd (strip s)" by (rule trans)
  moreover have "\<not> isspace (hd ?a)" using a by (rule dropWhile_hd)
  ultimately have "\<not> isspace (hd (strip s))" by simp
  then show ?thesis using l by (simp add: trimmed_def)
qed

lemma strip_id:
  assumes "trimmed s"
  shows "strip s = s"
proof (cases "s = []")
  case True
  then show ?thesis by (simp add: strip_def)
next
  case False
  have h: "\<not> isspace (hd s)" and l: "\<not> isspace (last s)"
    using assms False by (simp_all add: trimmed_def)
  have a: "dropWhile isspace s = s" using False h by (cases s) simp_all
  have r: "rev s \<noteq> []" using False by simp
  have "\<not> isspace (hd (rev s))" using l by (simp add: hd_rev)
  then have "dropWhile isspace (rev s) = rev s" using r by (cases "rev s") simp_all
  then show ?thesis unfolding strip_def a by simp
qed

lemma set_sub_spaces: "set (sub_spaces s) \<subseteq> insert 32 (set s)"
proof (induction s rule: sub_spaces.induct)
  case 1
  show ?case by simp
next
  case (2 c cs)
  show ?case
  proof (cases "isspace c")
    case True
    then show ?thesis using 2(1) by (auto dest: set_dropWhileD)
  next
    case False
    then show ?thesis using 2(2) by auto
  qed
qed

lemma sanitize_filename_chars:
  assumes "c \<in> set (sanitize_filename s)"
  shows "c < 65536 \<and> \<not> reserved c"
proof -
  let ?f = "filter (\<lambda>c. \<not> (0x10000 \<le> c \<and> c \<le> 0x10FFFF))
              (filter (\<lambda>c. c < 65536 \<and> (c < 0x1F600 \<or> c > 0x1FAFF))
                 (filter (\<lambda>c. \<not> reserved c) s))"
  have "c \<in> set (strip (sub_spaces ?f))"
    using assms unfolding sanitize_filename_def Let_def .
  then have "c \<in> insert 32 (set ?f)"
    using set_strip set_sub_spaces by blast
  then show ?thesis
  proof
    assume "c = 32"
    then show ?thesis by (simp add: reserved_def)
  next
    assume "c \<in> set ?f"
    then show ?thesis by simp
  qed
qed

lemma sanitize_filename_spaces:
  "single_spaced (sanitize_filename s) \<and> trimmed (sanitize_filename s)"
  unfolding sanitize_filename_def Let_def
  by (intro conjI single_spaced_strip single_spaced_sub_spaces trimmed_strip)

lemma sanitize_filename_fixpoint:
  assumes "\<forall>c\<in>set t. c < 65536 \<and> \<not> reserved c" and "single_spaced t" and "trimmed t"
  shows "sanitize_filename t = t"
proof -
  have 1: "filter (\<lambda>c. \<not> reserved c) t = t"
    using assms(1) by (simp add: filter_id_conv)
  have 2: "filter (\<lambda>c. c < 65536 \<and> (c < 0x1F600 \<or> c > 0x1FAFF)) t = t"
    using assms(1) by (auto simp: filter_id_conv)
  have 3: "filter (\<lambda>c. \<not> (0x10000 \<le> c \<and> c \<le> 0x10FFFF)) t = t"
    using assms(1) by (auto simp: filter_id_conv)
  show ?thesis
    unfolding sanitize_filename_def Let_def
    by (simp only: 1 2 3 sub_spaces_id[OF assms(2)] strip_id[OF assms(3)])
qed

text \<open>
  C6. The sanitizer is a function of its argument alone and applying it twice gives what
  applying it once gives. Its result has no code point outside the basic multilingual
  plane and no reserved character, no two adjacent whitespace characters, and no
  whitespace at either end.
\<close>

theorem sanitize_filename_idempotent:
  "sanitize_filename (sanitize_filename s) = sanitize_filename s
   \<and> (\<forall>c\<in>set (sanitize_filename s). c < 65536 \<and> \<not> reserved c)
   \<and> successively (\<lambda>a b. \<not> (isspace a \<and> isspace b)) (sanitize_filename s)
   \<and> trimmed (sanitize_filename s)"
proof -
  have c: "\<forall>c\<in>set (sanitize_filename s). c < 65536 \<and> \<not> reserved c"
    using sanitize_filename_chars by blast
  have sp: "single_spaced (sanitize_filename s)" and tr: "trimmed (sanitize_filename s)"
    using sanitize_filename_spaces by blast+
  have "sanitize_filename (sanitize_filename s) = sanitize_filename s"
    using c sp tr by (rule sanitize_filename_fixpoint)
  then show ?thesis using c sp tr by (simp add: single_spaced_def)
qed

theorem sanitize_filename_idempotent_witness:
  "sanitize_filename (sanitize_filename (py ''  a <b>  c:  '' @ [0x1F600, 9, 160, 100, 12288]))
     = sanitize_filename (py ''  a <b>  c:  '' @ [0x1F600, 9, 160, 100, 12288])
   \<and> sanitize_filename (py ''  a <b>  c:  '' @ [0x1F600, 9, 160, 100, 12288]) = py ''a b c d''
   \<and> 97 \<in> set (sanitize_filename (py ''  a <b>  c:  '' @ [0x1F600, 9, 160, 100, 12288]))
   \<and> (97::nat) < 65536 \<and> \<not> reserved 97"
proof -
  have v: "sanitize_filename (py ''  a <b>  c:  '' @ [0x1F600, 9, 160, 100, 12288]) = py ''a b c d''"
    by (simp add: sanitize_filename_def py_def strip_def isspace_def reserved_def)
  have m: "97 \<in> set (py ''a b c d'')" by (simp add: py_def)
  show ?thesis
    using sanitize_filename_idempotent[of "py ''  a <b>  c:  '' @ [0x1F600, 9, 160, 100, 12288]"] v m
    by simp
qed

section \<open>Quality normalization and format selection\<close>

lemma str_int_neg5: "str_int (- 5) = ''-5''"
  by code_simp

text \<open>
  C7. At \<^verbatim>\<open>POST /api/download\<close> a quality above 4320 (10000, say) starts the same thread
  as the quality 4320, and so does a request without a quality; the quality 0 is
  passed on as 0, and for it the options select the audio-only format with the MP3
  post-processor, whatever the url and the surroundings are.
\<close>

theorem quality_clamp:
  assumes "url \<noteq> []" and "4320 < q"
  shows "start_download \<lparr>req_url = Some url, req_quality = Some q\<rparr> i reg
           = start_download \<lparr>req_url = Some url, req_quality = Some 4320\<rparr> i reg
       \<and> start_download \<lparr>req_url = Some url, req_quality = None\<rparr> i reg
           = start_download \<lparr>req_url = Some url, req_quality = Some 4320\<rparr> i reg
       \<and> start_download \<lparr>req_url = Some url, req_quality = Some 4320\<rparr> i reg
           = (Json_download_id i, Some (url, i, 4320), reg)
       \<and> start_download \<lparr>req_url = Some url, req_quality = Some 0\<rparr> i reg
           = (Json_download_id i, Some (url, i, 0), reg)
       \<and> format (build_ydl_opts e 0) = ''bestaudio/best''
       \<and> merge_output_format (build_ydl_opts e 0) = None
       \<and> postprocessors (build_ydl_opts e 0)
           = Some [\<lparr>key = ''FFmpegExtractAudio'', preferredcodec = ''mp3'',
                    preferredquality = ''320''\<rparr>]"
  using assms by (simp add: start_download_def dict_get_def build_ydl_opts_def Let_def)

theorem quality_clamp_witness:
  "py ''u'' \<noteq> [] \<and> (4320::int) < 10000
   \<and> start_download \<lparr>req_url = Some (py ''u''), req_quality = Some 10000\<rparr> (py ''id'') Map.empty
       = start_download \<lparr>req_url = Some (py ''u''), req_quality = Some 4320\<rparr> (py ''id'') Map.empty
   \<and> start_download \<lparr>req_url = Some (py ''u''), req_quality = Some 10000\<rparr> (py ''id'') Map.empty
       = (Json_download_id (py ''id''), Some (py ''u'', py ''id'', 4320), Map.empty)"
proof -
  have u: "py ''u'' \<noteq> []" by (simp add: py_def)
  have q: "(4320::int) < 10000" by simp
  show ?thesis
    using quality_clamp[OF u q, of "py ''id''" Map.empty] u by simp
qed

text \<open>
  C10. Every quality up to 4320, a negative one included, is accepted and reaches the
  thread unchanged; the audio-only format is selected exactly for the quality 0, so a
  negative quality is put into the \<^verbatim>\<open>height<=\<close> constraints of the video format.
\<close>

theorem negative_quality_flows:
  assumes "url \<noteq> []"
  shows "(q \<le> 4320 \<longrightarrow>
            start_download \<lparr>req_url = Some url, req_quality = Some q\<rparr> i reg
              = (Json_download_id i, Some (url, i, q), reg))
       \<and> (format (build_ydl_opts e q) = ''bestaudio/best'' \<longleftrightarrow> q = 0)
       \<and> (postprocessors (build_ydl_opts e q) \<noteq> None \<longleftrightarrow> q = 0)
       \<and> (q \<noteq> 0 \<longrightarrow>
            format (build_ydl_opts e q)
              = ''bestvideo[height<='' @ str_int q
                @ ''][ext=mp4]+bestaudio[ext=m4a]/bestvideo[height<=''
                @ str_int q @ '']+bestaudio/best[height<=''
                @ str_int q @ '']/best'')"
  using assms by (simp add: start_download_def dict_get_def build_ydl_opts_def Let_def)

theorem negative_quality_flows_witness:
  "py ''u'' \<noteq> [] \<and> (- 5 :: int) \<le> 4320 \<and> (- 5 :: int) \<noteq> 0
   \<and> start_download \<lparr>req_url = Some (py ''u''), req_quality = Some (- 5)\<rparr> (py ''id'') Map.empty
       = (Json_download_id (py ''id''), Some (py ''u'', py ''id'', - 5), Map.empty)
   \<and> format (build_ydl_opts \<lparr>download_dir = py ''/d'', path_exists = (\<lambda>p. False), url_quote = id\<rparr> (- 5))
       = ''bestvideo[height<=-5][ext=mp4]+bestaudio[ext=m4a]/bestvideo[height<=-5]+bestaudio/best[height<=-5]/best''"
proof -
  have u: "py ''u'' \<noteq> []" by (simp add: py_def)
  show ?thesis
    using negative_quality_flows[OF u, of "- 5" "py ''id''" Map.empty
        "\<lparr>download_dir = py ''/d'', path_exists = (\<lambda>p. False), url_quote = id\<rparr>"] u
    by (simp add: str_int_neg5)
qed

section \<open>The progress callback\<close>

lemma percent_50_of_100: "py_round1 (fl (py_truediv (PyInt 50) (PyInt 100) * 100)) = 50"
  by code_simp

lemma percent_23_of_80:
  "py_round1 (fl (py_truediv (PyInt 23) (PyInt 80) * 100)) = fl (287 / 10)"
  by code_simp

lemma percent_1_of_3:
  "py_round1 (fl (py_truediv (PyInt 1) (PyFloat 3) * 100)) = fl (333 / 10)"
  by code_simp

lemma percent_1_of_3_bounds:
  "fl (333 / 10) < 3331 / 100 \<and> 3333 / 100 < fl (py_truediv (PyInt 1) (PyFloat 3) * 100)"
  by code_simp

lemma fl_287_tenths: "fl (287 / 10) < 2871 / 100"
  by code_simp

text \<open>
  C8, as amended. On a \<^verbatim>\<open>downloading\<close> callback with a positive total (the exact one, or
  the estimate when the exact one is missing, \<^verbatim>\<open>None\<close> or 0) the progress becomes
  \<^verbatim>\<open>round(downloaded_bytes / total * 100, 1)\<close>, computed in floating point, and speed and
  eta are overwritten with the reported values (0 when a key is absent); 50 of 100
  bytes give 50. With a total that is 0 or negative the callback assigns nothing and
  returns; with the total \<^verbatim>\<open>None\<close> it assigns nothing and raises the \<^verbatim>\<open>TypeError\<close> of
  comparing \<^verbatim>\<open>None\<close> with 0.
\<close>

theorem progress_hook_downloading:
  assumes "d_status d = ''downloading''"
  shows "(hook_total d = Num t \<and> 0 < value_of t \<longrightarrow>
            (\<exists>r'. progress_hook d r = Inr r'
               \<and> progress (cur r')
                 = py_round1 (fl (py_truediv (dict_get (d_downloaded_bytes d) (PyInt 0)) t * 100))
               \<and> speed (cur r') = dict_get (d_speed d) (Num (PyInt 0))
               \<and> eta (cur r') = dict_get (d_eta d) (Num (PyInt 0))
               \<and> status (cur r') = status (cur r) \<and> title (cur r') = title (cur r)
               \<and> filename (cur r') = filename (cur r) \<and> error (cur r') = error (cur r)))
       \<and> (d_total_bytes d = Some (Num (PyInt 100)) \<and> d_downloaded_bytes d = Some (PyInt 50) \<longrightarrow>
            (\<exists>r'. progress_hook d r = Inr r' \<and> progress (cur r') = 50))
       \<and> (hook_total d = Num t \<and> value_of t \<le> 0 \<longrightarrow> progress_hook d r = Inr r)
       \<and> (hook_total d = PyNone \<longrightarrow> progress_hook d r = Inl type_error)"
proof (intro conjI impI)
  assume "hook_total d = Num t \<and> 0 < value_of t"
  then show "\<exists>r'. progress_hook d r = Inr r'
               \<and> progress (cur r')
                 = py_round1 (fl (py_truediv (dict_get (d_downloaded_bytes d) (PyInt 0)) t * 100))
               \<and> speed (cur r') = dict_get (d_speed d) (Num (PyInt 0))
               \<and> eta (cur r') = dict_get (d_eta d) (Num (PyInt 0))
               \<and> status (cur r') = status (cur r) \<and> title (cur r') = title (cur r)
               \<and> filename (cur r') = filename (cur r) \<and> error (cur r') = error (cur r)"
    using assms by (simp add: progress_hook_def Let_def put_def)
next
  assume a: "d_total_bytes d = Some (Num (PyInt 100)) \<and> d_downloaded_bytes d = Some (PyInt 50)"
  then have t: "hook_total d = Num (PyInt 100)"
    by (simp add: hook_total_def dict_get_def truthy_def value_of_def)
  have d: "dict_get (d_downloaded_bytes d) (PyInt 0) = PyInt 50"
    using a by (simp add: dict_get_def)
  show "\<exists>r'. progress_hook d r = Inr r' \<and> progress (cur r') = 50"
    using assms
    by (simp add: progress_hook_def t d value_of_def Let_def put_def percent_50_of_100)
next
  assume "hook_total d = Num t \<and> value_of t \<le> 0"
  then show "progress_hook d r = Inr r"
    using assms by (simp add: progress_hook_def Let_def)
next
  assume "hook_total d = PyNone"
  then show "progress_hook d r = Inl type_error"
    using assms by (simp add: progress_hook_def Let_def)
qed

text \<open>
  C8 as stated fails: after 1 byte of an estimated 3.0 the progress is the float 33.3,
  below 33.31, while \<^verbatim>\<open>downloaded_bytes / total * 100\<close> is above 33.33.
\<close>

theorem progress_is_rounded_counterexample:
  "hook_total hook_third = Num (PyFloat 3)
   \<and> \<not> isl (progress_hook hook_third downloading_run)
   \<and> progress (cur (projr (progress_hook hook_third downloading_run))) < 3331 / 100
   \<and> 3333 / 100 < fl (py_truediv (PyInt 1) (PyFloat 3) * 100)"
proof -
  have t: "hook_total hook_third = Num (PyFloat 3)"
    by (simp add: hook_third_def hook_total_def dict_get_def truthy_def)
  have d: "dict_get (d_downloaded_bytes hook_third) (PyInt 0) = PyInt 1"
    by (simp add: hook_third_def dict_get_def)
  have s: "d_status hook_third = ''downloading''"
    by (simp add: hook_third_def)
  have "progress_hook hook_third downloading_run
        = Inr (put (\<lambda>j. j\<lparr>eta := dict_get (d_eta hook_third) (Num (PyInt 0))\<rparr>)
                (put (\<lambda>j. j\<lparr>speed := dict_get (d_speed hook_third) (Num (PyInt 0))\<rparr>)
                  (put (\<lambda>j. j\<lparr>progress := fl (333 / 10)\<rparr>) downloading_run)))"
    by (simp add: progress_hook_def t d s value_of_def Let_def percent_1_of_3)
  then have "\<not> isl (progress_hook hook_third downloading_run)"
    and "progress (cur (projr (progress_hook hook_third downloading_run))) = fl (333 / 10)"
    by (simp_all add: put_def Let_def)
  then show ?thesis
    using t percent_1_of_3_bounds by simp
qed

theorem progress_hook_downloading_witness:
  "d_status hook_half = ''downloading'' \<and> hook_total hook_half = Num (PyInt 100)
   \<and> 0 < value_of (PyInt 100)
   \<and> d_total_bytes hook_half = Some (Num (PyInt 100))
   \<and> d_downloaded_bytes hook_half = Some (PyInt 50)
   \<and> (\<exists>r'. progress_hook hook_half downloading_run = Inr r' \<and> progress (cur r') = 50
          \<and> speed (cur r') = Num (PyFloat 7) \<and> eta (cur r') = PyNone)
   \<and> d_status hook_23_of_80 = ''downloading'' \<and> hook_total hook_23_of_80 = Num (PyInt 80)
   \<and> (\<exists>r'. progress_hook hook_23_of_80 downloading_run = Inr r'
          \<and> progress (cur r') = fl (287 / 10) \<and> progress (cur r') < 2871 / 100)
   \<and> d_status hook_unknown = ''downloading'' \<and> hook_total hook_unknown = Num (PyInt 0)
   \<and> value_of (PyInt 0) \<le> 0
   \<and> progress_hook hook_unknown downloading_run = Inr downloading_run
   \<and> d_status hook_none = ''downloading'' \<and> hook_total hook_none = PyNone
   \<and> progress_hook hook_none downloading_run = Inl type_error"
proof -
  have a: "d_status hook_half = ''downloading''" by (simp add: hook_half_def)
  have t: "hook_total hook_half = Num (PyInt 100)"
    by (simp add: hook_half_def hook_total_def dict_get_def truthy_def value_of_def)
  have h: "d_total_bytes hook_half = Some (Num (PyInt 100))"
    "d_downloaded_bytes hook_half = Some (PyInt 50)"
    "dict_get (d_speed hook_half) (Num (PyInt 0)) = Num (PyFloat 7)"
    "dict_get (d_eta hook_half) (Num (PyInt 0)) = PyNone"
    "dict_get (d_downloaded_bytes hook_half) (PyInt 0) = PyInt 50"
    by (simp_all add: hook_half_def dict_get_def)
  have v: "0 < value_of (PyInt 100)" "value_of (PyInt 0) \<le> 0" "0 < value_of (PyInt 80)"
    by (simp_all add: value_of_def)
  have c: "d_status hook_23_of_80 = ''downloading''" by (simp add: hook_23_of_80_def)
  have w: "hook_total hook_23_of_80 = Num (PyInt 80)"
    by (simp add: hook_23_of_80_def hook_total_def dict_get_def truthy_def value_of_def)
  have g: "dict_get (d_downloaded_bytes hook_23_of_80) (PyInt 0) = PyInt 23"
    by (simp add: hook_23_of_80_def dict_get_def)
  have b: "d_status hook_unknown = ''downloading''" by (simp add: hook_unknown_def)
  have u: "hook_total hook_unknown = Num (PyInt 0)"
    by (simp add: hook_unknown_def hook_total_def dict_get_def truthy_def)
  have e: "d_status hook_none = ''downloading''" by (simp add: hook_none_def)
  have n: "hook_total hook_none = PyNone"
    by (simp add: hook_none_def hook_total_def dict_get_def truthy_def)
  have 1: "\<exists>r'. progress_hook hook_half downloading_run = Inr r' \<and> progress (cur r') = 50
          \<and> speed (cur r') = Num (PyFloat 7) \<and> eta (cur r') = PyNone"
    using progress_hook_downloading[OF a, where t = "PyInt 100" and r = downloading_run] t v h
    by (auto simp: percent_50_of_100)
  have 2: "\<exists>r'. progress_hook hook_23_of_80 downloading_run = Inr r'
          \<and> progress (cur r') = fl (287 / 10) \<and> progress (cur r') < 2871 / 100"
    using progress_hook_downloading[OF c, where t = "PyInt 80" and r = downloading_run] w v g
      fl_287_tenths
    by (auto simp: percent_23_of_80)
  have 3: "progress_hook hook_unknown downloading_run = Inr downloading_run"
    using progress_hook_downloading[OF b, where t = "PyInt 0" and r = downloading_run] u v
    by simp
  have 4: "progress_hook hook_none downloading_run = Inl type_error"
    using progress_hook_downloading[OF e, where r = downloading_run] n by simp
  show ?thesis
    using a t v h(1,2) 1 c w 2 b u 3 e n 4 by simp
qed

section \<open>The shape of a run\<close>

lemma cur_put [simp]: "cur (put f r) = f (cur r)"
  by (simp add: put_def Let_def)

lemma log_put [simp]: "log (put f r) = \<lparr>act = Wrote, seen = f (cur r)\<rparr> # log r"
  by (simp add: put_def Let_def)

lemma cur_mark [simp]: "cur (mark a r) = cur r"
  by (simp add: mark_def)

lemma log_mark [simp]: "log (mark a r) = \<lparr>act = a, seen = cur r\<rparr> # log r"
  by (simp add: mark_def)

lemma everywhere_put: "everywhere S r \<Longrightarrow> S (f (cur r)) \<Longrightarrow> everywhere S (put f r)"
  by (simp add: everywhere_def)

lemma everywhere_mark: "everywhere S r \<Longrightarrow> everywhere S (mark a r)"
  by (simp add: everywhere_def)

lemma stable_updates:
  assumes "stable S" and "S j"
  shows "S (j\<lparr>progress := p\<rparr>)" "S (j\<lparr>speed := v\<rparr>)" "S (j\<lparr>eta := v\<rparr>)"
    "S (j\<lparr>title := t\<rparr>)" "S (j\<lparr>thumbnail := th\<rparr>)" "S (j\<lparr>duration := du\<rparr>)"
    "S (j\<lparr>status := ''processing''\<rparr>)" "S (j\<lparr>status := ''retrying''\<rparr>)"
    "S (j\<lparr>status := ''downloading''\<rparr>)"
  using assms unfolding stable_def by blast+

lemma everywhere_progress_hook:
  assumes "stable S" and "everywhere S r" and "progress_hook d r = Inr r'"
  shows "everywhere S r'"
proof (cases "d_status d = ''downloading''")
  case True
  show ?thesis
  proof (cases "hook_total d")
    case PyNone
    then show ?thesis using assms True by (simp add: progress_hook_def)
  next
    case (Num t)
    show ?thesis
    proof (cases "0 < value_of t")
      case True
      let ?r1 = "put (\<lambda>j. j\<lparr>progress := py_round1 (fl (py_truediv
                   (dict_get (d_downloaded_bytes d) (PyInt 0)) t * 100))\<rparr>) r"
      let ?r2 = "put (\<lambda>j. j\<lparr>speed := dict_get (d_speed d) (Num (PyInt 0))\<rparr>) ?r1"
      let ?r3 = "put (\<lambda>j. j\<lparr>eta := dict_get (d_eta d) (Num (PyInt 0))\<rparr>) ?r2"
      have eq: "r' = ?r3"
        using assms(3) \<open>d_status d = ''downloading''\<close> Num True
        by (simp add: progress_hook_def Let_def)
      have 1: "everywhere S ?r1"
        using assms(2) by (rule everywhere_put) (use assms in \<open>simp add: everywhere_def stable_updates\<close>)
      have 2: "everywhere S ?r2"
        using 1 by (rule everywhere_put) (use 1 assms(1) in \<open>simp add: everywhere_def stable_updates\<close>)
      have 3: "everywhere S ?r3"
        using 2 by (rule everywhere_put) (use 2 assms(1) in \<open>simp add: everywhere_def stable_updates\<close>)
      show ?thesis unfolding eq by (rule 3)
    next
      case False
      then show ?thesis using assms \<open>d_status d = ''downloading''\<close> Num
        by (simp add: progress_hook_def)
    qed
  qed
next
  case False
  show ?thesis
  proof (cases "d_status d = ''finished''")
    case True
    let ?r1 = "put (\<lambda>j. j\<lparr>progress := 100\<rparr>) r"
    have eq: "r' = put (\<lambda>j. j\<lparr>status := ''processing''\<rparr>) ?r1"
      using assms(3) False True by (simp add: progress_hook_def Let_def)
    have 1: "everywhere S ?r1"
      using assms(2) by (rule everywhere_put) (use assms in \<open>simp add: everywhere_def stable_updates\<close>)
    have 2: "everywhere S (put (\<lambda>j. j\<lparr>status := ''processing''\<rparr>) ?r1)"
      using 1 by (rule everywhere_put) (use 1 assms(1) in \<open>simp add: everywhere_def stable_updates\<close>)
    show ?thesis unfolding eq by (rule 2)
  next
    case nf: False
    then show ?thesis using assms False by (simp add: progress_hook_def)
  qed
qed

lemma everywhere_run_hooks:
  assumes "stable S"
  shows "everywhere S r \<Longrightarrow>
     (case run_hooks ds r of Done r' \<Rightarrow> everywhere S r' | Raised m r' \<Rightarrow> everywhere S r')"
proof (induction ds arbitrary: r)
  case Nil
  then show ?case by simp
next
  case (Cons d ds)
  show ?case
  proof (cases "progress_hook d r")
    case (Inl m)
    then show ?thesis using Cons.prems by simp
  next
    case (Inr r1)
    then have "everywhere S r1" using Cons.prems assms everywhere_progress_hook by blast
    then show ?thesis using Cons.IH[of r1] Inr by simp
  qed
qed

lemma leave_cases:
  "leave None b = b"
  "leave (Some e) (Done r) = Raised e r"
  "leave (Some e) (Raised m r) = Raised e r"
  by (simp_all add: leave_def)

text \<open>
  The body of the \<^verbatim>\<open>with\<close> block of a download call ends by an exception, or after the
  three assignments of a success.
\<close>

lemma try_download_body:
  assumes "stable S" and "everywhere S r"
  shows "\<exists>b. try_download eng url opts q k r
               = leave (exit_error (download_call eng url opts k)) b
            \<and> (case b of
                 Raised m r' \<Rightarrow> everywhere S r'
               | Done r' \<Rightarrow>
                   (\<exists>r1 n. everywhere S r1 \<and> outcome (download_call eng url opts k) = Inr n
                      \<and> r' = succeed (final_name q n) r1))"
proof -
  let ?a = "download_call eng url opts k"
  have q0: "everywhere S (mark (Called k) r)" using assms(2) by (rule everywhere_mark)
  note hooks = everywhere_run_hooks[OF assms(1) q0, of "hooks ?a"]
  show ?thesis
  proof (cases "run_hooks (hooks ?a) (mark (Called k) r)")
    case (Raised m r1)
    then have "try_download eng url opts q k r = leave (exit_error ?a) (Raised m r1)"
      by (simp add: try_download_def Let_def)
    moreover have "everywhere S r1" using hooks Raised by simp
    ultimately show ?thesis by (intro exI[of _ "Raised m r1"]) simp
  next
    case (Done r1)
    then have q1: "everywhere S r1" using hooks by simp
    show ?thesis
    proof (cases "outcome ?a")
      case (Inl m)
      then have "try_download eng url opts q k r = leave (exit_error ?a) (Raised m r1)"
        using Done by (simp add: try_download_def Let_def)
      then show ?thesis using q1 by (intro exI[of _ "Raised m r1"]) simp
    next
      case (Inr n)
      have eq: "try_download eng url opts q k r
                = leave (exit_error ?a) (Done (succeed (final_name q n) r1))"
        using Done Inr by (simp add: try_download_def Let_def succeed_def final_name_def)
      have "\<exists>r0 n'. everywhere S r0 \<and> outcome ?a = Inr n'
                \<and> succeed (final_name q n) r1 = succeed (final_name q n') r0"
        using q1 Inr by (intro exI[of _ r1] exI[of _ n] conjI refl)
      then show ?thesis using eq
        by (intro exI[of _ "Done (succeed (final_name q n) r1)"]) simp
    qed
  qed
qed

lemma everywhere_succeed:
  assumes "finishing S n" and "everywhere S r"
  shows "everywhere S (succeed n r)"
proof -
  have s: "S (cur r)" using assms(2) by (simp add: everywhere_def)
  have "S ((cur r)\<lparr>filename := n\<rparr>)" "S ((cur r)\<lparr>filename := n, status := ''completed''\<rparr>)"
    "S ((cur r)\<lparr>filename := n, status := ''completed'', progress := 100\<rparr>)"
    using assms(1) s unfolding finishing_def by blast+
  then show ?thesis using assms(2) by (simp add: everywhere_def succeed_def)
qed

text \<open>
  A download call that returns leaves the three assignments of a success after a run
  where \<open>S\<close> holds everywhere; one that raises leaves a run where \<open>S\<close> holds everywhere,
  if \<open>S\<close> outlasts every success whose closing raises.
\<close>

lemma try_download_shape:
  assumes "stable S" and "everywhere S r"
    and "\<forall>n. outcome (download_call eng url opts k) = Inr n
           \<and> exit_error (download_call eng url opts k) \<noteq> None \<longrightarrow> finishing S (final_name q n)"
  shows "case try_download eng url opts q k r of
           Raised m r' \<Rightarrow> everywhere S r'
         | Done r' \<Rightarrow>
             (\<exists>r1 n. everywhere S r1 \<and> outcome (download_call eng url opts k) = Inr n
                \<and> exit_error (download_call eng url opts k) = None
                \<and> r' = succeed (final_name q n) r1)"
proof -
  let ?a = "download_call eng url opts k"
  obtain b where eq: "try_download eng url opts q k r = leave (exit_error ?a) b"
    and b: "case b of
                 Raised m r' \<Rightarrow> everywhere S r'
               | Done r' \<Rightarrow>
                   (\<exists>r1 n. everywhere S r1 \<and> outcome ?a = Inr n
                      \<and> r' = succeed (final_name q n) r1)"
    using try_download_body[OF assms(1,2), of eng url opts q k] by blast
  show ?thesis
  proof (cases "exit_error ?a")
    case None
    show ?thesis
    proof (cases b)
      case (Done r')
      then show ?thesis using b eq None by (simp add: leave_cases)
    next
      case (Raised m r')
      then show ?thesis using b eq None by (simp add: leave_cases)
    qed
  next
    case (Some e)
    show ?thesis
    proof (cases b)
      case (Done r')
      then obtain r1 n where r1: "everywhere S r1" and n: "outcome ?a = Inr n"
        and r': "r' = succeed (final_name q n) r1"
        using b by auto
      have "finishing S (final_name q n)" using assms(3) n Some by blast
      then have "everywhere S r'" unfolding r' using r1 by (rule everywhere_succeed)
      then show ?thesis using eq Some Done by (simp add: leave_cases)
    next
      case (Raised m r')
      then show ?thesis using b eq Some by (simp add: leave_cases)
    qed
  qed
qed

lemma retry_loop_shape:
  assumes "stable S"
    and "\<forall>k n. outcome (download_call eng url opts k) = Inr n
           \<and> exit_error (download_call eng url opts k) \<noteq> None \<longrightarrow> finishing S (final_name q n)"
  shows "everywhere S r \<Longrightarrow>
     (case retry_loop eng url opts q ks le r of
        Raised m r' \<Rightarrow> everywhere S r'
      | Done r' \<Rightarrow>
          (\<exists>r1 n k. everywhere S r1 \<and> outcome (download_call eng url opts k) = Inr n
             \<and> exit_error (download_call eng url opts k) = None
             \<and> r' = succeed (final_name q n) r1))"
proof (induction ks arbitrary: le r)
  case Nil
  then show ?case by simp
next
  case (Cons k ks)
  have c: "\<forall>n. outcome (download_call eng url opts k) = Inr n
           \<and> exit_error (download_call eng url opts k) \<noteq> None \<longrightarrow> finishing S (final_name q n)"
    using assms(2) by blast
  note shape = try_download_shape[OF assms(1) Cons.prems c]
  show ?case
  proof (cases "try_download eng url opts q k r")
    case (Done r1)
    then obtain r0 n where "everywhere S r0" "outcome (download_call eng url opts k) = Inr n"
      "exit_error (download_call eng url opts k) = None" "r1 = succeed (final_name q n) r0"
      using shape by auto
    then have "\<exists>r0 n k. everywhere S r0 \<and> outcome (download_call eng url opts k) = Inr n
             \<and> exit_error (download_call eng url opts k) = None
             \<and> r1 = succeed (final_name q n) r0"
      by (intro exI[of _ r0] exI[of _ n] exI[of _ k] conjI)
    then show ?thesis using Done by simp
  next
    case (Raised m r1)
    then have q1: "everywhere S r1" using shape by simp
    have q2: "everywhere S (put (\<lambda>j. j\<lparr>status := ''retrying''\<rparr>) (mark (Slept (2 ^ k)) r1))"
      by (rule everywhere_put[OF everywhere_mark[OF q1]])
        (use q1 assms(1) in \<open>simp add: everywhere_def stable_updates\<close>)
    show ?thesis using Raised q1 Cons.IH[OF q2, of "Some m"]
      by (simp add: Let_def)
  qed
qed

lemma download_body_shape:
  assumes "stable S" and "everywhere S r"
    and "\<forall>k n. outcome (download_call eng url (build_ydl_opts e q) k) = Inr n
           \<and> exit_error (download_call eng url (build_ydl_opts e q) k) \<noteq> None
           \<longrightarrow> finishing S (final_name q n)"
  shows "case download_body e eng url q r of
        Raised m r' \<Rightarrow> everywhere S r'
      | Done r' \<Rightarrow>
          (\<exists>r1 n k. everywhere S r1
             \<and> outcome (download_call eng url (build_ydl_opts e q) k) = Inr n
             \<and> exit_error (download_call eng url (build_ydl_opts e q) k) = None
             \<and> r' = succeed (final_name q n) r1)"
proof -
  let ?b = "case fetch_metadata eng url of
              Inl msg \<Rightarrow> Raised msg r
            | Inr i \<Rightarrow>
                Done (put (\<lambda>j. j\<lparr>status := ''downloading''\<rparr>)
                  (put (\<lambda>j. j\<lparr>duration := Some (dict_get (info_duration i) 0)\<rparr>)
                    (put (\<lambda>j. j\<lparr>thumbnail := Some (dict_get (info_thumbnail i) [])\<rparr>)
                      (put (\<lambda>j. j\<lparr>title :=
                         sanitize_filename (dict_get (info_title i) (py ''video''))\<rparr>) r))))"
  have eq: "download_body e eng url q r
            = (case leave (metadata_exit eng url) ?b of
                 Raised msg r \<Rightarrow> Raised msg r
               | Done r \<Rightarrow> retry_loop eng url (build_ydl_opts e q) q [0..<max_retries] None r)"
    by (cases "fetch_metadata eng url") (simp_all add: download_body_def Let_def)
  have b: "case ?b of Raised m r' \<Rightarrow> everywhere S r' | Done r' \<Rightarrow> everywhere S r'"
  proof (cases "fetch_metadata eng url")
    case (Inl m)
    then show ?thesis using assms(2) by simp
  next
    case (Inr i)
    let ?r1 = "put (\<lambda>j. j\<lparr>title :=
                 sanitize_filename (dict_get (info_title i) (py ''video''))\<rparr>) r"
    let ?r2 = "put (\<lambda>j. j\<lparr>thumbnail := Some (dict_get (info_thumbnail i) [])\<rparr>) ?r1"
    let ?r3 = "put (\<lambda>j. j\<lparr>duration := Some (dict_get (info_duration i) 0)\<rparr>) ?r2"
    let ?r4 = "put (\<lambda>j. j\<lparr>status := ''downloading''\<rparr>) ?r3"
    have 1: "everywhere S ?r1"
      using assms(2) by (rule everywhere_put) (use assms in \<open>simp add: everywhere_def stable_updates\<close>)
    have 2: "everywhere S ?r2"
      using 1 by (rule everywhere_put) (use 1 assms(1) in \<open>simp add: everywhere_def stable_updates\<close>)
    have 3: "everywhere S ?r3"
      using 2 by (rule everywhere_put) (use 2 assms(1) in \<open>simp add: everywhere_def stable_updates\<close>)
    have 4: "everywhere S ?r4"
      using 3 by (rule everywhere_put) (use 3 assms(1) in \<open>simp add: everywhere_def stable_updates\<close>)
    show ?thesis using Inr 4 by simp
  qed
  note loop = retry_loop_shape[OF assms(1,3), where ks = "[0..<max_retries]" and le = None]
  show ?thesis
  proof (cases "leave (metadata_exit eng url) ?b")
    case (Raised m r1)
    then have "everywhere S r1"
      using b by (cases "metadata_exit eng url"; cases ?b) (auto simp: leave_cases)
    then show ?thesis using Raised unfolding eq by simp
  next
    case (Done r1)
    then have "everywhere S r1"
      using b by (cases "metadata_exit eng url"; cases ?b) (auto simp: leave_cases)
    then show ?thesis using Done loop[of r1] unfolding eq by simp
  qed
qed

text \<open>
  Every run is the assignments of a success or of a failure after a run where \<open>S\<close>
  held everywhere.
\<close>

lemma download_video_shape:
  assumes "stable S" and "S new_job"
    and "\<forall>k n. outcome (download_call eng url (build_ydl_opts e q) k) = Inr n
           \<and> exit_error (download_call eng url (build_ydl_opts e q) k) \<noteq> None
           \<longrightarrow> finishing S (final_name q n)"
  shows "\<exists>r1. everywhere S r1 \<and>
     ((\<exists>n k. outcome (download_call eng url (build_ydl_opts e q) k) = Inr n
         \<and> exit_error (download_call eng url (build_ydl_opts e q) k) = None
         \<and> download_video e eng url q = succeed (final_name q n) r1)
      \<or> (\<exists>m. download_video e eng url q = fail m r1))"
proof -
  let ?s = "\<lparr>cur = new_job, log = [\<lparr>act = Wrote, seen = new_job\<rparr>]\<rparr>"
  have start: "everywhere S ?s" using assms(2) by (simp add: everywhere_def)
  note shape = download_body_shape[OF assms(1) start assms(3)]
  show ?thesis
  proof (cases "download_body e eng url q ?s")
    case (Done r1)
    then obtain r0 n k where "everywhere S r0"
      "outcome (download_call eng url (build_ydl_opts e q) k) = Inr n"
      "exit_error (download_call eng url (build_ydl_opts e q) k) = None"
      "r1 = succeed (final_name q n) r0"
      using shape by auto
    moreover have "download_video e eng url q = r1" using Done by (simp add: download_video_def)
    ultimately show ?thesis by blast
  next
    case (Raised m r1)
    then have "everywhere S r1" using shape by simp
    moreover have "download_video e eng url q = fail m r1"
      using Raised by (simp add: download_video_def Let_def fail_def)
    ultimately show ?thesis by blast
  qed
qed

text \<open>The last event of a run is an assignment, and it leaves the record that stays.\<close>

lemma last_event_is_record:
  "\<exists>evs. trace (download_video e eng url q)
      = evs @ [\<lparr>act = Wrote, seen = cur (download_video e eng url q)\<rparr>]"
proof -
  have st: "stable (\<lambda>j. True)" by (simp add: stable_def)
  have cl: "\<forall>k n. outcome (download_call eng url (build_ydl_opts e q) k) = Inr n
           \<and> exit_error (download_call eng url (build_ydl_opts e q) k) \<noteq> None
           \<longrightarrow> finishing (\<lambda>j. True) (final_name q n)"
    by (simp add: finishing_def)
  obtain r1 where
    alt: "(\<exists>n k. outcome (download_call eng url (build_ydl_opts e q) k) = Inr n
             \<and> exit_error (download_call eng url (build_ydl_opts e q) k) = None
             \<and> download_video e eng url q = succeed (final_name q n) r1)
          \<or> (\<exists>m. download_video e eng url q = fail m r1)"
    using download_video_shape[OF st TrueI cl] by blast
  from alt show ?thesis
  proof
    assume "\<exists>n k. outcome (download_call eng url (build_ydl_opts e q) k) = Inr n
             \<and> exit_error (download_call eng url (build_ydl_opts e q) k) = None
             \<and> download_video e eng url q = succeed (final_name q n) r1"
    then obtain n where eq: "download_video e eng url q = succeed (final_name q n) r1"
      by blast
    show ?thesis unfolding eq by (simp add: succeed_def trace_def)
  next
    assume "\<exists>m. download_video e eng url q = fail m r1"
    then obtain m where eq: "download_video e eng url q = fail m r1"
      by blast
    show ?thesis unfolding eq by (simp add: fail_def trace_def)
  qed
qed

lemma stable_sound: "stable (sound P)"
  by (simp add: stable_def sound_def)

lemma sound_new_job: "sound P new_job"
  by (simp add: sound_def new_job_def)

lemma finishing_sound: "P n \<Longrightarrow> finishing (sound P) n"
  by (simp add: finishing_def sound_def)

text \<open>
  If every file name that a success stores has the property \<open>P\<close>, then every record of
  the run with status \<^verbatim>\<open>completed\<close> has a file name with \<open>P\<close>, and every record with a
  status other than \<^verbatim>\<open>error\<close> has no error.
\<close>

lemma sound_records:
  assumes "\<forall>k n. outcome (download_call eng url (build_ydl_opts e q) k) = Inr n
             \<longrightarrow> P (final_name q n)"
    and "ev \<in> set (trace (download_video e eng url q))"
  shows "(status (seen ev) = ''completed'' \<longrightarrow> P (filename (seen ev)))
       \<and> (status (seen ev) \<noteq> ''error'' \<longrightarrow> error (seen ev) = None)"
proof -
  have closing: "\<forall>k n. outcome (download_call eng url (build_ydl_opts e q) k) = Inr n
           \<and> exit_error (download_call eng url (build_ydl_opts e q) k) \<noteq> None
           \<longrightarrow> finishing (sound P) (final_name q n)"
    using assms(1) finishing_sound[of P] by blast
  obtain r1 where q1: "everywhere (sound P) r1" and
    alt: "(\<exists>n k. outcome (download_call eng url (build_ydl_opts e q) k) = Inr n
             \<and> exit_error (download_call eng url (build_ydl_opts e q) k) = None
             \<and> download_video e eng url q = succeed (final_name q n) r1)
          \<or> (\<exists>m. download_video e eng url q = fail m r1)"
    using download_video_shape[OF stable_sound sound_new_job closing] by blast
  have old: "\<And>ev. ev \<in> set (log r1) \<Longrightarrow> sound P (seen ev)"
    using q1 by (simp add: everywhere_def list_all_iff)
  have c1: "sound P (cur r1)" using q1 by (simp add: everywhere_def)
  from alt show ?thesis
  proof
    assume "\<exists>n k. outcome (download_call eng url (build_ydl_opts e q) k) = Inr n
             \<and> exit_error (download_call eng url (build_ydl_opts e q) k) = None
             \<and> download_video e eng url q = succeed (final_name q n) r1"
    then obtain n k where o: "outcome (download_call eng url (build_ydl_opts e q) k) = Inr n"
      and eq: "download_video e eng url q = succeed (final_name q n) r1"
      by blast
    have p: "P (final_name q n)" using o assms(1) by blast
    have "sound P (seen ev)"
      using assms(2) old c1 p unfolding eq trace_def succeed_def
      by (auto simp: sound_def)
    then show ?thesis by (simp add: sound_def)
  next
    assume "\<exists>m. download_video e eng url q = fail m r1"
    then obtain m where eq: "download_video e eng url q = fail m r1"
      by blast
    have "sound P (seen ev) \<or> status (seen ev) = ''error''"
      using assms(2) old unfolding eq trace_def fail_def by auto
    then show ?thesis by (auto simp: sound_def)
  qed
qed

section \<open>The example runs\<close>

lemma range_max_retries: "[0..<3] = [0, 1, 2]"
  by (simp add: upt_rec)

lemma lock_message_is_file_lock: "is_file_lock lock_message"
  by (simp add: is_file_lock_def lock_message_def py_def)

lemma http_error_no_file_lock: "\<not> is_file_lock (py ''HTTP Error 403'')"
  by (simp add: is_file_lock_def py_def)

lemma read_only_no_file_lock: "\<not> is_file_lock (py ''Read-only file system'')"
  by (simp add: is_file_lock_def py_def)

lemmas run_simps = download_video_def download_body_def range_max_retries try_download_def
  leave_def progress_hook_def hook_total_def dict_get_def truthy_def value_of_def Let_def put_def
  mark_def trace_def lock_message_is_file_lock http_error_no_file_lock read_only_no_file_lock
  max_retries_def new_job_def

lemma engine_ok_run:
  "map (\<lambda>ev. (act ev, status (seen ev), progress (seen ev), filename (seen ev), error (seen ev)))
     (trace (download_video example_env engine_ok example_url 1080))
   = [(Wrote, ''starting'', 0, [], None), (Wrote, ''starting'', 0, [], None),
      (Wrote, ''starting'', 0, [], None), (Wrote, ''starting'', 0, [], None),
      (Wrote, ''downloading'', 0, [], None), (Called 0, ''downloading'', 0, [], None),
      (Wrote, ''downloading'', 50, [], None), (Wrote, ''downloading'', 50, [], None),
      (Wrote, ''downloading'', 50, [], None), (Wrote, ''downloading'', 100, [], None),
      (Wrote, ''processing'', 100, [], None),
      (Wrote, ''processing'', 100, py ''/srv/My Clip.mp4'', None),
      (Wrote, ''completed'', 100, py ''/srv/My Clip.mp4'', None),
      (Wrote, ''completed'', 100, py ''/srv/My Clip.mp4'', None)]"
  by (simp add: run_simps engine_ok_def example_info_def hook_half_def hook_finished_def
      percent_50_of_100)

lemma engine_broken_run:
  "map (\<lambda>ev. (act ev, status (seen ev), progress (seen ev), filename (seen ev), error (seen ev)))
     (trace (download_video example_env engine_broken example_url 1080))
   = [(Wrote, ''starting'', 0, [], None), (Wrote, ''starting'', 0, [], None),
      (Wrote, ''starting'', 0, [], None), (Wrote, ''starting'', 0, [], None),
      (Wrote, ''downloading'', 0, [], None), (Called 0, ''downloading'', 0, [], None),
      (Wrote, ''downloading'', 50, [], None), (Wrote, ''downloading'', 50, [], None),
      (Wrote, ''downloading'', 50, [], None), (Wrote, ''error'', 50, [], None),
      (Wrote, ''error'', 50, [], Some (py ''HTTP Error 403''))]"
  by (simp add: run_simps engine_broken_def example_info_def hook_half_def percent_50_of_100)

lemma engine_locked_once_run:
  "map (\<lambda>ev. (act ev, status (seen ev), progress (seen ev), filename (seen ev), error (seen ev)))
     (trace (download_video example_env engine_locked_once example_url 0))
   = [(Wrote, ''starting'', 0, [], None), (Wrote, ''starting'', 0, [], None),
      (Wrote, ''starting'', 0, [], None), (Wrote, ''starting'', 0, [], None),
      (Wrote, ''downloading'', 0, [], None), (Called 0, ''downloading'', 0, [], None),
      (Slept 1, ''downloading'', 0, [], None), (Wrote, ''retrying'', 0, [], None),
      (Called 1, ''retrying'', 0, [], None),
      (Wrote, ''retrying'', 0, py ''/srv/My Clip.mp3'', None),
      (Wrote, ''completed'', 0, py ''/srv/My Clip.mp3'', None),
      (Wrote, ''completed'', 100, py ''/srv/My Clip.mp3'', None)]"
  by (simp add: run_simps engine_locked_once_def example_info_def rsplit_dot_def py_def)

lemma engine_locked_run:
  "map (\<lambda>ev. (act ev, status (seen ev), progress (seen ev), filename (seen ev), error (seen ev)))
     (trace (download_video example_env engine_locked example_url 1080))
   = [(Wrote, ''starting'', 0, [], None), (Wrote, ''starting'', 0, [], None),
      (Wrote, ''starting'', 0, [], None), (Wrote, ''starting'', 0, [], None),
      (Wrote, ''downloading'', 0, [], None), (Called 0, ''downloading'', 0, [], None),
      (Slept 1, ''downloading'', 0, [], None), (Wrote, ''retrying'', 0, [], None),
      (Called 1, ''retrying'', 0, [], None), (Slept 2, ''retrying'', 0, [], None),
      (Wrote, ''retrying'', 0, [], None), (Called 2, ''retrying'', 0, [], None),
      (Wrote, ''error'', 0, [], None), (Wrote, ''error'', 0, [], Some lock_message)]"
  by (simp add: run_simps engine_locked_def example_info_def)

lemma engine_close_fails_run:
  "map (\<lambda>ev. (act ev, status (seen ev), progress (seen ev), filename (seen ev), error (seen ev)))
     (trace (download_video example_env engine_close_fails example_url 1080))
   = [(Wrote, ''starting'', 0, [], None), (Wrote, ''starting'', 0, [], None),
      (Wrote, ''starting'', 0, [], None), (Wrote, ''starting'', 0, [], None),
      (Wrote, ''downloading'', 0, [], None), (Called 0, ''downloading'', 0, [], None),
      (Wrote, ''downloading'', 0, py ''/srv/My Clip.mp4'', None),
      (Wrote, ''completed'', 0, py ''/srv/My Clip.mp4'', None),
      (Wrote, ''completed'', 100, py ''/srv/My Clip.mp4'', None),
      (Wrote, ''error'', 100, py ''/srv/My Clip.mp4'', None),
      (Wrote, ''error'', 100, py ''/srv/My Clip.mp4'', Some (py ''Read-only file system''))]"
  by (simp add: run_simps engine_close_fails_def example_info_def)

lemma engine_close_locked_run:
  "map (\<lambda>ev. (act ev, status (seen ev), progress (seen ev), filename (seen ev), error (seen ev)))
     (trace (download_video example_env engine_close_locked example_url 1080))
   = [(Wrote, ''starting'', 0, [], None), (Wrote, ''starting'', 0, [], None),
      (Wrote, ''starting'', 0, [], None), (Wrote, ''starting'', 0, [], None),
      (Wrote, ''downloading'', 0, [], None), (Called 0, ''downloading'', 0, [], None),
      (Wrote, ''downloading'', 0, py ''/srv/My Clip.mp4'', None),
      (Wrote, ''completed'', 0, py ''/srv/My Clip.mp4'', None),
      (Wrote, ''completed'', 100, py ''/srv/My Clip.mp4'', None),
      (Slept 1, ''completed'', 100, py ''/srv/My Clip.mp4'', None),
      (Wrote, ''retrying'', 100, py ''/srv/My Clip.mp4'', None),
      (Called 1, ''retrying'', 100, py ''/srv/My Clip.mp4'', None),
      (Wrote, ''retrying'', 100, py ''/srv/My Clip.mp4'', None),
      (Wrote, ''completed'', 100, py ''/srv/My Clip.mp4'', None),
      (Wrote, ''completed'', 100, py ''/srv/My Clip.mp4'', None)]"
  by (simp add: run_simps engine_close_locked_def example_info_def)

lemma engine_locked_once_final:
  "status (cur (download_video example_env engine_locked_once example_url 0)) = ''completed''"
  "filename (cur (download_video example_env engine_locked_once example_url 0))
     = py ''/srv/My Clip.mp3''"
  by (simp_all add: run_simps engine_locked_once_def example_info_def rsplit_dot_def py_def)

lemma nth_of_map:
  assumes "map f xs = ys" and "i < length ys"
  shows "f (xs ! i) = ys ! i \<and> xs ! i \<in> set xs"
proof -
  have "length xs = length ys" using assms(1) by auto
  then have "i < length xs" using assms(2) by simp
  then have "map f xs ! i = f (xs ! i)" and "xs ! i \<in> set xs" by simp_all
  then show ?thesis using assms(1) by simp
qed

section \<open>Status and its companion fields\<close>

text \<open>
  C1, as amended. Provided the engine returns no empty file name for a video, every
  record a poll can find obeys: status \<^verbatim>\<open>completed\<close> only with a non-empty file name, and
  a non-empty error only with status \<^verbatim>\<open>error\<close>.
\<close>

theorem observed_records_consistent:
  assumes "\<forall>k n. outcome (download_call eng url (build_ydl_opts e q) k) = Inr n
             \<longrightarrow> q = 0 \<or> n \<noteq> []"
  shows "\<forall>ev\<in>set (trace (download_video e eng url q)).
            (status (seen ev) = ''completed'' \<longrightarrow> filename (seen ev) \<noteq> [])
          \<and> (\<forall>m. error (seen ev) = Some m \<and> m \<noteq> [] \<longrightarrow> status (seen ev) = ''error'')"
proof
  fix ev
  assume ev: "ev \<in> set (trace (download_video e eng url q))"
  have names: "\<forall>k n. outcome (download_call eng url (build_ydl_opts e q) k) = Inr n
             \<longrightarrow> final_name q n \<noteq> []"
  proof (intro allI impI)
    fix k n
    assume "outcome (download_call eng url (build_ydl_opts e q) k) = Inr n"
    then have "q = 0 \<or> n \<noteq> []" using assms by blast
    then show "final_name q n \<noteq> []"
      by (cases "q = 0") (simp_all add: final_name_def py_def)
  qed
  have "(status (seen ev) = ''completed'' \<longrightarrow> filename (seen ev) \<noteq> [])
       \<and> (status (seen ev) \<noteq> ''error'' \<longrightarrow> error (seen ev) = None)"
    using sound_records[where P = "\<lambda>f. f \<noteq> []", OF names ev] .
  then show "(status (seen ev) = ''completed'' \<longrightarrow> filename (seen ev) \<noteq> [])
          \<and> (\<forall>m. error (seen ev) = Some m \<and> m \<noteq> [] \<longrightarrow> status (seen ev) = ''error'')"
    by auto
qed

text \<open>
  C1 as stated fails. In the run of \<open>engine_ok\<close> the twelfth record has the file name
  while its status is still \<^verbatim>\<open>processing\<close>; in the run of \<open>engine_broken\<close> the tenth
  record has status \<^verbatim>\<open>error\<close> while its error is still \<^verbatim>\<open>None\<close>; the run of
  \<open>engine_close_fails\<close> ends with status \<^verbatim>\<open>error\<close> and the file name.
\<close>

theorem companion_fields_counterexample:
  "status (seen (trace (download_video example_env engine_ok example_url 1080) ! 11)) = ''processing''
   \<and> filename (seen (trace (download_video example_env engine_ok example_url 1080) ! 11))
       = py ''/srv/My Clip.mp4''
   \<and> status (seen (trace (download_video example_env engine_broken example_url 1080) ! 9)) = ''error''
   \<and> error (seen (trace (download_video example_env engine_broken example_url 1080) ! 9)) = None
   \<and> status (seen (trace (download_video example_env engine_close_fails example_url 1080) ! 10))
       = ''error''
   \<and> filename (seen (trace (download_video example_env engine_close_fails example_url 1080) ! 10))
       = py ''/srv/My Clip.mp4''"
  using nth_of_map[OF engine_ok_run, of 11] nth_of_map[OF engine_broken_run, of 9]
    nth_of_map[OF engine_close_fails_run, of 10]
  by simp

theorem observed_records_consistent_witness:
  "trace (download_video example_env engine_ok example_url 1080) ! 12
     \<in> set (trace (download_video example_env engine_ok example_url 1080))
   \<and> status (seen (trace (download_video example_env engine_ok example_url 1080) ! 12)) = ''completed''
   \<and> filename (seen (trace (download_video example_env engine_ok example_url 1080) ! 12)) \<noteq> []
   \<and> trace (download_video example_env engine_broken example_url 1080) ! 10
     \<in> set (trace (download_video example_env engine_broken example_url 1080))
   \<and> error (seen (trace (download_video example_env engine_broken example_url 1080) ! 10))
       = Some (py ''HTTP Error 403'')
   \<and> py ''HTTP Error 403'' \<noteq> []
   \<and> status (seen (trace (download_video example_env engine_broken example_url 1080) ! 10)) = ''error''"
proof -
  let ?t = "trace (download_video example_env engine_ok example_url 1080)"
  let ?u = "trace (download_video example_env engine_broken example_url 1080)"
  have names: "\<forall>k n. outcome (download_call engine_ok example_url
        (build_ydl_opts example_env 1080) k) = Inr n \<longrightarrow> (1080::int) = 0 \<or> n \<noteq> []"
    by (auto simp: engine_ok_def py_def)
  have names': "\<forall>k n. outcome (download_call engine_broken example_url
        (build_ydl_opts example_env 1080) k) = Inr n \<longrightarrow> (1080::int) = 0 \<or> n \<noteq> []"
    by (simp add: engine_broken_def)
  have at: "?t ! 12 \<in> set ?t" "status (seen (?t ! 12)) = ''completed''"
    using nth_of_map[OF engine_ok_run, of 12] by simp_all
  have bt: "?u ! 10 \<in> set ?u" "error (seen (?u ! 10)) = Some (py ''HTTP Error 403'')"
    using nth_of_map[OF engine_broken_run, of 10] by simp_all
  have ne: "py ''HTTP Error 403'' \<noteq> []" by (simp add: py_def)
  note a = observed_records_consistent[OF names, rule_format]
  note b = observed_records_consistent[OF names', rule_format]
  have 1: "filename (seen (?t ! 12)) \<noteq> []"
    using a[OF at(1)] at(2) by simp
  have 2: "status (seen (?u ! 10)) = ''error''"
    using b[OF bt(1)] bt(2) ne by blast
  show ?thesis using at bt ne 1 2 by simp
qed

section \<open>Terminal states\<close>

lemma stable_pending: "stable pending"
  by (simp add: stable_def pending_def)

lemma pending_new_job: "pending new_job"
  by (simp add: pending_def new_job_def)

lemma sorted_wrt_old:
  assumes "\<forall>a\<in>set xs. \<forall>b. T (seen a) b"
  shows "sorted_wrt (\<lambda>b a. T (seen a) (seen b)) xs"
  using assms by (induction xs) auto

lemma error_stays_run: "sorted_wrt (\<lambda>b a. error_stays (seen a) (seen b)) (log (download_video e eng url q))"
proof -
  let ?S = "sound (\<lambda>f. True)"
  have closing: "\<forall>k n. outcome (download_call eng url (build_ydl_opts e q) k) = Inr n
           \<and> exit_error (download_call eng url (build_ydl_opts e q) k) \<noteq> None
           \<longrightarrow> finishing ?S (final_name q n)"
    by (simp add: finishing_sound)
  obtain r1 where q1: "everywhere ?S r1" and
    alt: "(\<exists>n k. outcome (download_call eng url (build_ydl_opts e q) k) = Inr n
             \<and> exit_error (download_call eng url (build_ydl_opts e q) k) = None
             \<and> download_video e eng url q = succeed (final_name q n) r1)
          \<or> (\<exists>m. download_video e eng url q = fail m r1)"
    using download_video_shape[OF stable_sound sound_new_job closing] by blast
  have olds: "\<forall>a\<in>set (log r1). status (seen a) \<noteq> ''error''"
    using q1 by (simp add: everywhere_def list_all_iff sound_def)
  then have old: "\<forall>a\<in>set (log r1). \<forall>b. error_stays (seen a) b"
    unfolding error_stays_def by blast
  have c1: "status (cur r1) \<noteq> ''error''" using q1 by (simp add: everywhere_def sound_def)
  have s: "sorted_wrt (\<lambda>b a. error_stays (seen a) (seen b)) (log r1)"
    using old by (rule sorted_wrt_old[where T = error_stays])
  from alt show ?thesis
  proof
    assume "\<exists>n k. outcome (download_call eng url (build_ydl_opts e q) k) = Inr n
             \<and> exit_error (download_call eng url (build_ydl_opts e q) k) = None
             \<and> download_video e eng url q = succeed (final_name q n) r1"
    then obtain n where eq: "download_video e eng url q = succeed (final_name q n) r1"
      by blast
    show ?thesis unfolding eq succeed_def
      using s olds c1 by (simp add: error_stays_def)
  next
    assume "\<exists>m. download_video e eng url q = fail m r1"
    then obtain m where eq: "download_video e eng url q = fail m r1"
      by blast
    show ?thesis unfolding eq fail_def
      using s olds by (simp add: error_stays_def kept_def)
  qed
qed

lemma completed_stays_run:
  assumes "\<forall>k. exit_error (download_call eng url (build_ydl_opts e q) k) = None"
  shows "sorted_wrt (\<lambda>b a. completed_stays (seen a) (seen b)) (log (download_video e eng url q))"
proof -
  have closing: "\<forall>k n. outcome (download_call eng url (build_ydl_opts e q) k) = Inr n
           \<and> exit_error (download_call eng url (build_ydl_opts e q) k) \<noteq> None
           \<longrightarrow> finishing pending (final_name q n)"
    using assms by simp
  obtain r1 where q1: "everywhere pending r1" and
    alt: "(\<exists>n k. outcome (download_call eng url (build_ydl_opts e q) k) = Inr n
             \<and> exit_error (download_call eng url (build_ydl_opts e q) k) = None
             \<and> download_video e eng url q = succeed (final_name q n) r1)
          \<or> (\<exists>m. download_video e eng url q = fail m r1)"
    using download_video_shape[OF stable_pending pending_new_job closing] by blast
  have olds: "\<forall>a\<in>set (log r1). status (seen a) \<noteq> ''completed''"
    using q1 by (simp add: everywhere_def list_all_iff pending_def)
  then have old: "\<forall>a\<in>set (log r1). \<forall>b. completed_stays (seen a) b"
    unfolding completed_stays_def by blast
  have c1: "status (cur r1) \<noteq> ''completed''" using q1 by (simp add: everywhere_def pending_def)
  have s: "sorted_wrt (\<lambda>b a. completed_stays (seen a) (seen b)) (log r1)"
    using old by (rule sorted_wrt_old[where T = completed_stays])
  from alt show ?thesis
  proof
    assume "\<exists>n k. outcome (download_call eng url (build_ydl_opts e q) k) = Inr n
             \<and> exit_error (download_call eng url (build_ydl_opts e q) k) = None
             \<and> download_video e eng url q = succeed (final_name q n) r1"
    then obtain n where eq: "download_video e eng url q = succeed (final_name q n) r1"
      by blast
    show ?thesis unfolding eq succeed_def
      using s olds c1 by (simp add: completed_stays_def kept_def)
  next
    assume "\<exists>m. download_video e eng url q = fail m r1"
    then obtain m where eq: "download_video e eng url q = fail m r1"
      by blast
    show ?thesis unfolding eq fail_def
      using s olds by (simp add: completed_stays_def)
  qed
qed

text \<open>
  C3, as amended. Once a record with status \<^verbatim>\<open>error\<close> has been observed, every later
  record has the same status, progress, file name, title, thumbnail, duration, speed
  and eta. If no closing of the engine object after a download call raises, then once
  a record with status \<^verbatim>\<open>completed\<close> has been observed, every later record has the same
  status, error, file name, title, thumbnail, duration, speed and eta. The last record
  of a run is the one that stays.
\<close>

theorem terminal_status_is_final:
  "sorted_wrt (\<lambda>a b. error_stays (seen a) (seen b)) (trace (download_video e eng url q))
   \<and> ((\<forall>k. exit_error (download_call eng url (build_ydl_opts e q) k) = None) \<longrightarrow>
        sorted_wrt (\<lambda>a b. completed_stays (seen a) (seen b)) (trace (download_video e eng url q)))
   \<and> (\<exists>evs. trace (download_video e eng url q)
          = evs @ [\<lparr>act = Wrote, seen = cur (download_video e eng url q)\<rparr>])"
proof (intro conjI impI)
  show "sorted_wrt (\<lambda>a b. error_stays (seen a) (seen b)) (trace (download_video e eng url q))"
    unfolding trace_def sorted_wrt_rev by (rule error_stays_run)
next
  assume "\<forall>k. exit_error (download_call eng url (build_ydl_opts e q) k) = None"
  then show "sorted_wrt (\<lambda>a b. completed_stays (seen a) (seen b))
               (trace (download_video e eng url q))"
    unfolding trace_def sorted_wrt_rev by (rule completed_stays_run)
next
  show "\<exists>evs. trace (download_video e eng url q)
          = evs @ [\<lparr>act = Wrote, seen = cur (download_video e eng url q)\<rparr>]"
    by (rule last_event_is_record)
qed

text \<open>
  C3 as stated fails: the record is assigned to after the status has become terminal.
  After \<^verbatim>\<open>completed\<close> the progress goes from 0 to 100 in the run of \<open>engine_locked_once\<close>;
  after \<^verbatim>\<open>error\<close> the error goes from \<^verbatim>\<open>None\<close> to the message in the run of
  \<open>engine_locked\<close>; and in the run of \<open>engine_close_fails\<close>, where the closing of the
  engine object raises, the status goes from \<^verbatim>\<open>completed\<close> to \<^verbatim>\<open>error\<close>.
\<close>

theorem terminal_record_mutated_counterexample:
  "status (seen (trace (download_video example_env engine_locked_once example_url 0) ! 10)) = ''completed''
   \<and> progress (seen (trace (download_video example_env engine_locked_once example_url 0) ! 10)) = 0
   \<and> status (seen (trace (download_video example_env engine_locked_once example_url 0) ! 11)) = ''completed''
   \<and> progress (seen (trace (download_video example_env engine_locked_once example_url 0) ! 11)) = 100
   \<and> status (seen (trace (download_video example_env engine_locked example_url 1080) ! 12)) = ''error''
   \<and> error (seen (trace (download_video example_env engine_locked example_url 1080) ! 12)) = None
   \<and> status (seen (trace (download_video example_env engine_locked example_url 1080) ! 13)) = ''error''
   \<and> error (seen (trace (download_video example_env engine_locked example_url 1080) ! 13)) = Some lock_message
   \<and> status (seen (trace (download_video example_env engine_close_fails example_url 1080) ! 8))
       = ''completed''
   \<and> status (seen (trace (download_video example_env engine_close_fails example_url 1080) ! 9))
       = ''error''"
  using nth_of_map[OF engine_locked_once_run, of 10] nth_of_map[OF engine_locked_once_run, of 11]
    nth_of_map[OF engine_locked_run, of 12] nth_of_map[OF engine_locked_run, of 13]
    nth_of_map[OF engine_close_fails_run, of 8] nth_of_map[OF engine_close_fails_run, of 9]
  by simp

theorem terminal_status_is_final_witness:
  "status (seen (trace (download_video example_env engine_locked example_url 1080) ! 12)) = ''error''
   \<and> status (seen (trace (download_video example_env engine_locked example_url 1080) ! 13)) = ''error''
   \<and> progress (seen (trace (download_video example_env engine_locked example_url 1080) ! 13))
       = progress (seen (trace (download_video example_env engine_locked example_url 1080) ! 12))
   \<and> filename (seen (trace (download_video example_env engine_locked example_url 1080) ! 13))
       = filename (seen (trace (download_video example_env engine_locked example_url 1080) ! 12))
   \<and> (\<forall>k. exit_error (download_call engine_locked_once example_url
              (build_ydl_opts example_env 0) k) = None)
   \<and> status (seen (trace (download_video example_env engine_locked_once example_url 0) ! 10))
       = ''completed''
   \<and> status (seen (trace (download_video example_env engine_locked_once example_url 0) ! 11))
       = ''completed''
   \<and> error (seen (trace (download_video example_env engine_locked_once example_url 0) ! 11))
       = error (seen (trace (download_video example_env engine_locked_once example_url 0) ! 10))
   \<and> filename (seen (trace (download_video example_env engine_locked_once example_url 0) ! 11))
       = filename (seen (trace (download_video example_env engine_locked_once example_url 0) ! 10))
   \<and> seen (last (trace (download_video example_env engine_locked_once example_url 0)))
       = cur (download_video example_env engine_locked_once example_url 0)"
proof -
  let ?t = "trace (download_video example_env engine_locked_once example_url 0)"
  let ?u = "trace (download_video example_env engine_locked example_url 1080)"
  have len: "length ?t = 12" using arg_cong[OF engine_locked_once_run, of length] by simp
  have len': "length ?u = 14" using arg_cong[OF engine_locked_run, of length] by simp
  have x: "\<forall>k. exit_error (download_call engine_locked_once example_url
              (build_ydl_opts example_env 0) k) = None"
    by (simp add: engine_locked_once_def)
  have t: "status (seen (?t ! 10)) = ''completed''"
    using nth_of_map[OF engine_locked_once_run, of 10] by simp
  have u: "status (seen (?u ! 12)) = ''error''"
    using nth_of_map[OF engine_locked_run, of 12] by simp
  note th = terminal_status_is_final[of example_env engine_locked_once example_url 0]
  note th' = terminal_status_is_final[of example_env engine_locked example_url 1080]
  have "sorted_wrt (\<lambda>a b. completed_stays (seen a) (seen b)) ?t"
    using th x by blast
  then have a: "completed_stays (seen (?t ! 10)) (seen (?t ! 11))"
    using len by (simp add: sorted_wrt_iff_nth_less)
  have "sorted_wrt (\<lambda>a b. error_stays (seen a) (seen b)) ?u"
    using th' by blast
  then have b: "error_stays (seen (?u ! 12)) (seen (?u ! 13))"
    using len' by (simp add: sorted_wrt_iff_nth_less)
  have "\<exists>evs. ?t = evs @ [\<lparr>act = Wrote, seen = cur (download_video example_env engine_locked_once
                 example_url 0)\<rparr>]"
    using th by blast
  then have c: "seen (last ?t) = cur (download_video example_env engine_locked_once example_url 0)"
    by auto
  show ?thesis
    using a b c t u x by (simp add: completed_stays_def error_stays_def kept_def)
qed

section \<open>The retry policy\<close>

lemma calls_put [simp]: "calls (put f r) = calls r"
  by (simp add: calls_def trace_def)

lemma sleeps_put [simp]: "sleeps (put f r) = sleeps r"
  by (simp add: sleeps_def trace_def)

lemma calls_mark [simp]:
  "calls (mark (Called k) r) = calls r @ [k]"
  "calls (mark (Slept n) r) = calls r"
  by (simp_all add: calls_def trace_def)

lemma sleeps_mark [simp]:
  "sleeps (mark (Called k) r) = sleeps r"
  "sleeps (mark (Slept n) r) = sleeps r @ [n]"
  by (simp_all add: sleeps_def trace_def)

lemma progress_hook_raises:
  "hook_raises d \<Longrightarrow> progress_hook d r = Inl type_error"
  by (simp add: hook_raises_def progress_hook_def Let_def)

lemma progress_hook_returns:
  assumes "\<not> hook_raises d"
  shows "\<exists>r'. progress_hook d r = Inr r' \<and> calls r' = calls r \<and> sleeps r' = sleeps r"
proof (cases "hook_total d")
  case PyNone
  then show ?thesis using assms by (simp add: hook_raises_def progress_hook_def Let_def)
next
  case (Num t)
  then show ?thesis by (simp add: progress_hook_def Let_def)
qed

lemma run_hooks_calls:
  "case run_hooks ds r of
     Done r' \<Rightarrow> \<not> list_ex hook_raises ds \<and> calls r' = calls r \<and> sleeps r' = sleeps r
   | Raised m r' \<Rightarrow> list_ex hook_raises ds \<and> m = type_error \<and> calls r' = calls r
       \<and> sleeps r' = sleeps r"
proof (induction ds arbitrary: r)
  case Nil
  show ?case by simp
next
  case (Cons d ds)
  show ?case
  proof (cases "hook_raises d")
    case True
    then show ?thesis by (simp add: progress_hook_raises)
  next
    case False
    then obtain r1 where "progress_hook d r = Inr r1" "calls r1 = calls r" "sleeps r1 = sleeps r"
      using progress_hook_returns by blast
    then show ?thesis using Cons.IH[of r1] False
      by (simp split: ending.splits)
  qed
qed

text \<open>A download call ends as \<open>attempt_error\<close> tells, and adds itself to the calls.\<close>

lemma try_download_calls:
  "case try_download eng url opts q k r of
     Done r' \<Rightarrow> attempt_error (download_call eng url opts k) = None
        \<and> status (cur r') = ''completed''
        \<and> calls r' = calls r @ [k] \<and> sleeps r' = sleeps r
   | Raised m r' \<Rightarrow> attempt_error (download_call eng url opts k) = Some m
        \<and> calls r' = calls r @ [k] \<and> sleeps r' = sleeps r"
proof -
  let ?a = "download_call eng url opts k"
  note h = run_hooks_calls[of "hooks ?a" "mark (Called k) r"]
  show ?thesis
  proof (cases "run_hooks (hooks ?a) (mark (Called k) r)")
    case (Raised m r1)
    then show ?thesis using h
      by (cases "exit_error ?a") (simp_all add: try_download_def attempt_error_def leave_cases)
  next
    case (Done r1)
    then show ?thesis using h
      by (cases "outcome ?a"; cases "exit_error ?a")
        (simp_all add: try_download_def attempt_error_def leave_cases Let_def)
  qed
qed

lemma try_download_outcome:
  "calls r = cs \<Longrightarrow> sleeps r = ss \<Longrightarrow>
   outcome_is (attempt_error (download_call eng url opts k)) (cs @ [k]) ss
     (try_download eng url opts q k r)"
  using try_download_calls[where eng = eng and url = url and opts = opts and q = q and k = k and r = r]
  by (simp add: outcome_is_def split: ending.splits)

lemma retry_loop_last:
  assumes "calls r = cs" and "sleeps r = ss"
  shows "outcome_is (attempt_error (download_call eng url opts 2)) (cs @ [2]) ss
           (retry_loop eng url opts q [2] le r)"
  using try_download_outcome[OF assms, where eng = eng and url = url and opts = opts and k = 2 and q = q]
  by (simp add: outcome_is_def max_retries_def split: ending.splits)

lemma retry_loop_second:
  assumes "calls r = cs" and "sleeps r = ss"
  shows "(\<not> contention (attempt_error (download_call eng url opts 1)) \<longrightarrow>
            outcome_is (attempt_error (download_call eng url opts 1)) (cs @ [1]) ss
              (retry_loop eng url opts q [1, 2] le r))
       \<and> (contention (attempt_error (download_call eng url opts 1)) \<longrightarrow>
            outcome_is (attempt_error (download_call eng url opts 2)) (cs @ [1, 2]) (ss @ [2])
              (retry_loop eng url opts q [1, 2] le r))"
proof (cases "try_download eng url opts q 1 r")
  case (Done r1)
  then show ?thesis using try_download_outcome[OF assms, where eng = eng and url = url and opts = opts and k = 1 and q = q]
    by (simp add: outcome_is_def contention_def)
next
  case (Raised m r1)
  then have e: "attempt_error (download_call eng url opts 1) = Some m"
    and c: "calls r1 = cs @ [1]" and s: "sleeps r1 = ss"
    using try_download_outcome[OF assms, where eng = eng and url = url and opts = opts and k = 1 and q = q] by (simp_all add: outcome_is_def)
  show ?thesis
  proof (cases "is_file_lock m")
    case False
    then show ?thesis using Raised e c s by (simp add: outcome_is_def contention_def)
  next
    case True
    let ?r = "put (\<lambda>j. j\<lparr>status := ''retrying''\<rparr>) (mark (Slept (2 ^ 1)) r1)"
    have "calls ?r = cs @ [1]" "sleeps ?r = ss @ [2]" using c s by simp_all
    then have "outcome_is (attempt_error (download_call eng url opts 2)) (cs @ [1, 2]) (ss @ [2])
           (retry_loop eng url opts q [2] (Some m) ?r)"
      using retry_loop_last[where r = ?r and cs = "cs @ [1]" and ss = "ss @ [2]" and eng = eng
          and url = url and opts = opts and q = q and le = "Some m"] by simp
    then show ?thesis using Raised True e
      by (simp add: contention_def max_retries_def Let_def)
  qed
qed

lemma retry_loop_first:
  assumes "calls r = []" and "sleeps r = []"
  shows "(\<not> contention (attempt_error (download_call eng url opts 0)) \<longrightarrow>
            outcome_is (attempt_error (download_call eng url opts 0)) [0] []
              (retry_loop eng url opts q [0, 1, 2] le r))
       \<and> (contention (attempt_error (download_call eng url opts 0))
            \<and> \<not> contention (attempt_error (download_call eng url opts 1)) \<longrightarrow>
            outcome_is (attempt_error (download_call eng url opts 1)) [0, 1] [1]
              (retry_loop eng url opts q [0, 1, 2] le r))
       \<and> (contention (attempt_error (download_call eng url opts 0))
            \<and> contention (attempt_error (download_call eng url opts 1)) \<longrightarrow>
            outcome_is (attempt_error (download_call eng url opts 2)) [0, 1, 2] [1, 2]
              (retry_loop eng url opts q [0, 1, 2] le r))"
proof (cases "try_download eng url opts q 0 r")
  case (Done r1)
  then show ?thesis using try_download_outcome[OF assms, where eng = eng and url = url and opts = opts and k = 0 and q = q]
    by (simp add: outcome_is_def contention_def)
next
  case (Raised m r1)
  then have e: "attempt_error (download_call eng url opts 0) = Some m"
    and c: "calls r1 = [0]" and s: "sleeps r1 = []"
    using try_download_outcome[OF assms, where eng = eng and url = url and opts = opts and k = 0 and q = q] by (simp_all add: outcome_is_def)
  show ?thesis
  proof (cases "is_file_lock m")
    case False
    then show ?thesis using Raised e c s by (simp add: outcome_is_def contention_def)
  next
    case True
    let ?r = "put (\<lambda>j. j\<lparr>status := ''retrying''\<rparr>) (mark (Slept (2 ^ 0)) r1)"
    have cs: "calls ?r = [0]" "sleeps ?r = [] @ [1]" using c s by simp_all
    have eq: "retry_loop eng url opts q [0, 1, 2] le r
                = retry_loop eng url opts q [1, 2] (Some m) ?r"
      using Raised True by (simp add: max_retries_def Let_def)
    show ?thesis unfolding eq
      using retry_loop_second[OF cs, where eng = eng and url = url and opts = opts and q = q
          and le = "Some m"] True e
      by (simp add: contention_def)
  qed
qed

lemma outcome_is_ended:
  assumes "outcome_is x cs ss R"
  shows "ended_as x (case R of Done r \<Rightarrow> r
           | Raised m r \<Rightarrow> put (\<lambda>j. j\<lparr>error := Some m\<rparr>) (put (\<lambda>j. j\<lparr>status := ''error''\<rparr>) r))
       \<and> calls (case R of Done r \<Rightarrow> r
           | Raised m r \<Rightarrow> put (\<lambda>j. j\<lparr>error := Some m\<rparr>) (put (\<lambda>j. j\<lparr>status := ''error''\<rparr>) r)) = cs
       \<and> sleeps (case R of Done r \<Rightarrow> r
           | Raised m r \<Rightarrow> put (\<lambda>j. j\<lparr>error := Some m\<rparr>) (put (\<lambda>j. j\<lparr>status := ''error''\<rparr>) r)) = ss"
  using assms by (cases R) (simp_all add: outcome_is_def ended_as_def)

lemma download_video_retry_loop:
  assumes "fetch_metadata eng url = Inr i" and "metadata_exit eng url = None"
  shows "\<exists>r. calls r = [] \<and> sleeps r = []
           \<and> download_video e eng url q
              = (case retry_loop eng url (build_ydl_opts e q) q [0, 1, 2] None r of
                   Done r \<Rightarrow> r
                 | Raised m r \<Rightarrow> put (\<lambda>j. j\<lparr>error := Some m\<rparr>)
                                   (put (\<lambda>j. j\<lparr>status := ''error''\<rparr>) r))"
proof -
  let ?r = "put (\<lambda>j. j\<lparr>status := ''downloading''\<rparr>)
             (put (\<lambda>j. j\<lparr>duration := Some (dict_get (info_duration i) 0)\<rparr>)
               (put (\<lambda>j. j\<lparr>thumbnail := Some (dict_get (info_thumbnail i) [])\<rparr>)
                 (put (\<lambda>j. j\<lparr>title := sanitize_filename (dict_get (info_title i) (py ''video''))\<rparr>)
                    \<lparr>cur = new_job, log = [\<lparr>act = Wrote, seen = new_job\<rparr>]\<rparr>)))"
  have "calls ?r = []" "sleeps ?r = []"
    by (simp_all add: calls_def sleeps_def trace_def)
  moreover have "download_video e eng url q
      = (case retry_loop eng url (build_ydl_opts e q) q [0, 1, 2] None ?r of
           Done r \<Rightarrow> r
         | Raised m r \<Rightarrow> put (\<lambda>j. j\<lparr>error := Some m\<rparr>) (put (\<lambda>j. j\<lparr>status := ''error''\<rparr>) r))"
    using assms
    by (simp add: download_video_def download_body_def leave_cases Let_def max_retries_def
        range_max_retries del: retry_loop.simps split: ending.splits)
  ultimately show ?thesis by blast
qed

text \<open>
  C2. After the metadata call has returned and its engine object has been closed, the
  download call is made at most three times. A call is followed by another only when it failed with a message that tells
  of a locked file and fewer than three calls have been made; the wait before the
  retry that follows attempt \<open>n\<close> is \<open>2 ^ n\<close>, so the waits are 1 and 2. The run ends
  as its last call does: completed when that returned, and otherwise in
  \<^verbatim>\<open>error\<close> with the message of that call, be it the first failure of another
  kind or the third failure.
\<close>

theorem retry_policy:
  assumes "fetch_metadata eng url = Inr i" and "metadata_exit eng url = None"
  shows "(\<not> contention (call_error e eng url q 0) \<longrightarrow>
            calls (download_video e eng url q) = [0]
            \<and> sleeps (download_video e eng url q) = []
            \<and> ended_as (call_error e eng url q 0) (download_video e eng url q))
       \<and> (contention (call_error e eng url q 0) \<and> \<not> contention (call_error e eng url q 1) \<longrightarrow>
            calls (download_video e eng url q) = [0, 1]
            \<and> sleeps (download_video e eng url q) = [1]
            \<and> ended_as (call_error e eng url q 1) (download_video e eng url q))
       \<and> (contention (call_error e eng url q 0) \<and> contention (call_error e eng url q 1) \<longrightarrow>
            calls (download_video e eng url q) = [0, 1, 2]
            \<and> sleeps (download_video e eng url q) = [1, 2]
            \<and> ended_as (call_error e eng url q 2) (download_video e eng url q))
       \<and> length (calls (download_video e eng url q)) \<le> 3
       \<and> sleeps (download_video e eng url q)
           = map (\<lambda>n. 2 ^ n) [0..<length (calls (download_video e eng url q)) - 1]"
proof -
  obtain r where c: "calls r = []" and s: "sleeps r = []"
    and eq: "download_video e eng url q
              = (case retry_loop eng url (build_ydl_opts e q) q [0, 1, 2] None r of
                   Done r \<Rightarrow> r
                 | Raised m r \<Rightarrow> put (\<lambda>j. j\<lparr>error := Some m\<rparr>)
                                   (put (\<lambda>j. j\<lparr>status := ''error''\<rparr>) r))"
    using download_video_retry_loop[OF assms] by blast
  note first = retry_loop_first[OF c s, where eng = eng and url = url
      and opts = "build_ydl_opts e q" and q = q and le = None]
  have 1: "\<not> contention (call_error e eng url q 0) \<Longrightarrow>
            calls (download_video e eng url q) = [0]
            \<and> sleeps (download_video e eng url q) = []
            \<and> ended_as (call_error e eng url q 0) (download_video e eng url q)"
    unfolding eq call_error_def using first outcome_is_ended by blast
  have 2: "contention (call_error e eng url q 0) \<Longrightarrow> \<not> contention (call_error e eng url q 1) \<Longrightarrow>
            calls (download_video e eng url q) = [0, 1]
            \<and> sleeps (download_video e eng url q) = [1]
            \<and> ended_as (call_error e eng url q 1) (download_video e eng url q)"
    unfolding eq call_error_def using first outcome_is_ended by blast
  have 3: "contention (call_error e eng url q 0) \<Longrightarrow> contention (call_error e eng url q 1) \<Longrightarrow>
            calls (download_video e eng url q) = [0, 1, 2]
            \<and> sleeps (download_video e eng url q) = [1, 2]
            \<and> ended_as (call_error e eng url q 2) (download_video e eng url q)"
    unfolding eq call_error_def using first outcome_is_ended by blast
  have 4: "length (calls (download_video e eng url q)) \<le> 3
       \<and> sleeps (download_video e eng url q)
           = map (\<lambda>n. 2 ^ n) [0..<length (calls (download_video e eng url q)) - 1]"
  proof (cases "contention (call_error e eng url q 0)")
    case False
    then show ?thesis using 1 by simp
  next
    case True
    then show ?thesis using 2 3
      by (cases "contention (call_error e eng url q 1)") (simp_all add: upt_rec)
  qed
  show ?thesis using 1 2 3 4 by blast
qed

lemma example_call_errors:
  "call_error example_env engine_locked example_url 1080 k = Some lock_message"
  "call_error example_env engine_locked_once example_url 0 0 = Some lock_message"
  "call_error example_env engine_locked_once example_url 0 1 = None"
  "call_error example_env engine_locked_once example_url 0 (Suc 0) = None"
  "call_error example_env engine_broken example_url 1080 0 = Some (py ''HTTP Error 403'')"
  by (simp_all add: call_error_def attempt_error_def engine_locked_def engine_locked_once_def
      engine_broken_def hook_raises_def hook_half_def hook_total_def dict_get_def truthy_def
      value_of_def)

theorem retry_policy_witness:
  "fetch_metadata engine_locked example_url = Inr example_info
   \<and> metadata_exit engine_locked example_url = None
   \<and> contention (call_error example_env engine_locked example_url 1080 0)
   \<and> contention (call_error example_env engine_locked example_url 1080 1)
   \<and> calls (download_video example_env engine_locked example_url 1080) = [0, 1, 2]
   \<and> sleeps (download_video example_env engine_locked example_url 1080) = [1, 2]
   \<and> status (cur (download_video example_env engine_locked example_url 1080)) = ''error''
   \<and> error (cur (download_video example_env engine_locked example_url 1080)) = Some lock_message
   \<and> contention (call_error example_env engine_locked_once example_url 0 0)
   \<and> \<not> contention (call_error example_env engine_locked_once example_url 0 1)
   \<and> calls (download_video example_env engine_locked_once example_url 0) = [0, 1]
   \<and> sleeps (download_video example_env engine_locked_once example_url 0) = [1]
   \<and> status (cur (download_video example_env engine_locked_once example_url 0)) = ''completed''
   \<and> \<not> contention (call_error example_env engine_broken example_url 1080 0)
   \<and> calls (download_video example_env engine_broken example_url 1080) = [0]
   \<and> sleeps (download_video example_env engine_broken example_url 1080) = []
   \<and> status (cur (download_video example_env engine_broken example_url 1080)) = ''error''
   \<and> error (cur (download_video example_env engine_broken example_url 1080))
       = Some (py ''HTTP Error 403'')"
proof -
  have m: "fetch_metadata engine_locked example_url = Inr example_info"
    "fetch_metadata engine_locked_once example_url = Inr example_info"
    "fetch_metadata engine_broken example_url = Inr example_info"
    by (simp_all add: engine_locked_def engine_locked_once_def engine_broken_def)
  have x: "metadata_exit engine_locked example_url = None"
    "metadata_exit engine_locked_once example_url = None"
    "metadata_exit engine_broken example_url = None"
    by (simp_all add: engine_locked_def engine_locked_once_def engine_broken_def)
  have c: "contention (Some lock_message)" "\<not> contention None"
    "\<not> contention (Some (py ''HTTP Error 403''))"
    using lock_message_is_file_lock http_error_no_file_lock by (simp_all add: contention_def)
  show ?thesis
    using retry_policy[OF m(1) x(1), where e = example_env and q = 1080]
      retry_policy[OF m(2) x(2), where e = example_env and q = 0]
      retry_policy[OF m(3) x(3), where e = example_env and q = 1080]
      m(1) x(1) c
    by (simp add: example_call_errors ended_as_def)
qed

section \<open>The order of events in a run\<close>

lemma awake_follows: "awake a \<Longrightarrow> follows a b"
  by (cases "act a") (simp_all add: awake_def follows_def)

lemma late_statuses [simp]:
  "late ''retrying''" "late ''processing''" "late ''completed''" "late ''error''"
  "\<not> late ''downloading''" "\<not> late ''starting''"
  by (simp_all add: late_def)

lemma orderly_put:
  assumes "orderly r"
    and "late (status (f (cur r))) \<or> status (f (cur r)) = status (cur r)"
  shows "orderly (put f r)"
proof -
  have ne: "log r \<noteq> []" and aw: "awake (hd (log r))"
    and la: "last (log r) = \<lparr>act = Wrote, seen = new_job\<rparr>"
    and ca: "list_all calm (log r)"
    and su: "successively (\<lambda>b a. follows a b) (log r)"
    and so: "sorted_wrt (\<lambda>b a. no_return a b) (log r)"
    and dl: "\<not> late (status (cur r)) \<longrightarrow>
           list_all (\<lambda>ev. status (seen ev) \<noteq> ''retrying'') (log r)"
    using assms(1) by (simp_all add: orderly_def)
  let ?n = "\<lparr>act = Wrote, seen = f (cur r)\<rparr>"
  have 1: "calm ?n" "awake ?n" by (simp_all add: calm_def awake_def)
  have 2: "follows (hd (log r)) ?n" using aw by (rule awake_follows)
  have 3: "\<forall>a\<in>set (log r). no_return a ?n"
    using assms(2) dl by (auto simp: no_return_def list_all_iff)
  have 4: "\<not> late (status (f (cur r))) \<longrightarrow>
           list_all (\<lambda>ev. status (seen ev) \<noteq> ''retrying'') (?n # log r)"
    using assms(2) dl by (auto simp: late_def)
  show ?thesis
    unfolding orderly_def using ne la ca su so 1 2 3 4
    by (simp add: successively_Cons)
qed

lemma orderly_mark_called:
  assumes "orderly r" and "k = 0 \<or> status (cur r) = ''retrying''"
  shows "orderly (mark (Called k) r)"
proof -
  have ne: "log r \<noteq> []" and aw: "awake (hd (log r))"
    and la: "last (log r) = \<lparr>act = Wrote, seen = new_job\<rparr>"
    and ca: "list_all calm (log r)"
    and su: "successively (\<lambda>b a. follows a b) (log r)"
    and so: "sorted_wrt (\<lambda>b a. no_return a b) (log r)"
    and dl: "\<not> late (status (cur r)) \<longrightarrow>
           list_all (\<lambda>ev. status (seen ev) \<noteq> ''retrying'') (log r)"
    using assms(1) by (simp_all add: orderly_def)
  let ?n = "\<lparr>act = Called k, seen = cur r\<rparr>"
  have 1: "calm ?n" "awake ?n" using assms(2) by (auto simp: calm_def awake_def)
  have 2: "follows (hd (log r)) ?n" using aw by (rule awake_follows)
  have 3: "\<forall>a\<in>set (log r). no_return a ?n"
    using dl by (auto simp: no_return_def list_all_iff)
  have 4: "\<not> late (status (cur r)) \<longrightarrow>
           list_all (\<lambda>ev. status (seen ev) \<noteq> ''retrying'') (?n # log r)"
    using dl by (auto simp: late_def)
  show ?thesis
    unfolding orderly_def using ne la ca su so 1 2 3 4
    by (simp add: successively_Cons)
qed

lemma orderly_sleep_retry:
  assumes "orderly r"
    and "n = 1 \<longrightarrow> status (cur r) = ''downloading'' \<or> status (cur r) = ''processing''
           \<or> status (cur r) = ''completed''"
  shows "orderly (put (\<lambda>j. j\<lparr>status := ''retrying''\<rparr>) (mark (Slept n) r))"
proof -
  have ne: "log r \<noteq> []" and aw: "awake (hd (log r))"
    and la: "last (log r) = \<lparr>act = Wrote, seen = new_job\<rparr>"
    and ca: "list_all calm (log r)"
    and su: "successively (\<lambda>b a. follows a b) (log r)"
    and so: "sorted_wrt (\<lambda>b a. no_return a b) (log r)"
    and dl: "\<not> late (status (cur r)) \<longrightarrow>
           list_all (\<lambda>ev. status (seen ev) \<noteq> ''retrying'') (log r)"
    using assms(1) by (simp_all add: orderly_def)
  let ?s = "\<lparr>act = Slept n, seen = cur r\<rparr>"
  let ?n = "\<lparr>act = Wrote, seen = (cur r)\<lparr>status := ''retrying''\<rparr>\<rparr>"
  have 1: "calm ?s" "calm ?n" "awake ?n" using assms(2) by (auto simp: calm_def awake_def)
  have 2: "follows (hd (log r)) ?s" using aw by (rule awake_follows)
  have 3: "follows ?s ?n" by (simp add: follows_def)
  have 4: "\<forall>a\<in>set (log r). no_return a ?s"
    using dl by (auto simp: no_return_def list_all_iff)
  have 5: "\<forall>a\<in>set (?s # log r). no_return a ?n"
    by (simp add: no_return_def)
  show ?thesis
    unfolding orderly_def using ne la ca su so 1 2 3 4 5
    by (simp add: successively_Cons)
qed

lemma orderly_progress_hook:
  assumes "orderly r" and "progress_hook d r = Inr r'"
  shows "orderly r' \<and> (status (cur r') = status (cur r) \<or> status (cur r') = ''processing'')"
proof (cases "d_status d = ''downloading''")
  case True
  show ?thesis
  proof (cases "hook_total d")
    case PyNone
    then show ?thesis using assms True by (simp add: progress_hook_def)
  next
    case (Num t)
    show ?thesis
    proof (cases "0 < value_of t")
      case True
      let ?r1 = "put (\<lambda>j. j\<lparr>progress := py_round1 (fl (py_truediv
                   (dict_get (d_downloaded_bytes d) (PyInt 0)) t * 100))\<rparr>) r"
      let ?r2 = "put (\<lambda>j. j\<lparr>speed := dict_get (d_speed d) (Num (PyInt 0))\<rparr>) ?r1"
      let ?r3 = "put (\<lambda>j. j\<lparr>eta := dict_get (d_eta d) (Num (PyInt 0))\<rparr>) ?r2"
      have eq: "r' = ?r3"
        using assms(2) \<open>d_status d = ''downloading''\<close> Num True
        by (simp add: progress_hook_def Let_def)
      have "orderly ?r1" using assms(1) by (rule orderly_put) simp
      then have "orderly ?r2" by (rule orderly_put) simp
      then have "orderly ?r3" by (rule orderly_put) simp
      then show ?thesis unfolding eq by simp
    next
      case False
      then show ?thesis using assms \<open>d_status d = ''downloading''\<close> Num
        by (simp add: progress_hook_def)
    qed
  qed
next
  case False
  show ?thesis
  proof (cases "d_status d = ''finished''")
    case True
    let ?r1 = "put (\<lambda>j. j\<lparr>progress := 100\<rparr>) r"
    let ?r2 = "put (\<lambda>j. j\<lparr>status := ''processing''\<rparr>) ?r1"
    have eq: "r' = ?r2"
      using assms(2) False True by (simp add: progress_hook_def Let_def)
    have "orderly ?r1" using assms(1) by (rule orderly_put) simp
    then have "orderly ?r2" by (rule orderly_put) simp
    then show ?thesis unfolding eq by simp
  next
    case nf: False
    then show ?thesis using assms False by (simp add: progress_hook_def)
  qed
qed

lemma orderly_run_hooks:
  "orderly r \<Longrightarrow>
   (case run_hooks ds r of
      Done r' \<Rightarrow> orderly r' \<and> (status (cur r') = status (cur r) \<or> status (cur r') = ''processing'')
    | Raised m r' \<Rightarrow> orderly r' \<and> (status (cur r') = status (cur r) \<or> status (cur r') = ''processing''))"
proof (induction ds arbitrary: r)
  case Nil
  then show ?case by simp
next
  case (Cons d ds)
  show ?case
  proof (cases "progress_hook d r")
    case (Inl m)
    then show ?thesis using Cons.prems by simp
  next
    case (Inr r1)
    then have 1: "orderly r1"
      and 2: "status (cur r1) = status (cur r) \<or> status (cur r1) = ''processing''"
      using Cons.prems orderly_progress_hook by blast+
    show ?thesis using Cons.IH[OF 1] Inr 2
      by (auto split: ending.splits)
  qed
qed

text \<open>
  A download call that raises leaves the status as it found it, or \<^verbatim>\<open>processing\<close>, or
  \<^verbatim>\<open>completed\<close> when it is the closing that raises after a success.
\<close>

lemma orderly_try_download:
  assumes "orderly r" and "k = 0 \<or> status (cur r) = ''retrying''"
  shows "case try_download eng url opts q k r of
           Done r' \<Rightarrow> orderly r'
         | Raised m r' \<Rightarrow> orderly r'
             \<and> (status (cur r') = status (cur r) \<or> status (cur r') = ''processing''
                \<or> status (cur r') = ''completed'')"
proof -
  let ?a = "download_call eng url opts k"
  have o: "orderly (mark (Called k) r)" using assms by (rule orderly_mark_called)
  note h = orderly_run_hooks[OF o, of "hooks ?a"]
  show ?thesis
  proof (cases "run_hooks (hooks ?a) (mark (Called k) r)")
    case (Raised m r1)
    then show ?thesis using h
      by (cases "exit_error ?a") (auto simp: try_download_def leave_cases)
  next
    case (Done r1)
    then have o1: "orderly r1"
      and s1: "status (cur r1) = status (cur r) \<or> status (cur r1) = ''processing''"
      using h by simp_all
    show ?thesis
    proof (cases "outcome ?a")
      case (Inl m)
      then show ?thesis using Done o1 s1
        by (cases "exit_error ?a") (auto simp: try_download_def leave_cases)
    next
      case (Inr n)
      let ?r1 = "put (\<lambda>j. j\<lparr>filename := (if q = 0 then rsplit_dot n @ py ''.mp3'' else n)\<rparr>) r1"
      let ?r2 = "put (\<lambda>j. j\<lparr>status := ''completed''\<rparr>) ?r1"
      let ?r3 = "put (\<lambda>j. j\<lparr>progress := 100\<rparr>) ?r2"
      have eq: "try_download eng url opts q k r = leave (exit_error ?a) (Done ?r3)"
        using Done Inr by (simp add: try_download_def Let_def)
      have "orderly ?r1" using o1 by (rule orderly_put) simp
      then have "orderly ?r2" by (rule orderly_put) simp
      then have o3: "orderly ?r3" by (rule orderly_put) simp
      have s3: "status (cur ?r3) = ''completed''" by simp
      show ?thesis unfolding eq using o3 s3
        by (cases "exit_error ?a") (simp_all add: leave_cases del: cur_put)
    qed
  qed
qed

lemma two_power_one: "(2::nat) ^ k = 1 \<longleftrightarrow> k = 0"
  by (cases k) simp_all

lemma orderly_retry_loop:
  "orderly r \<Longrightarrow>
   (status (cur r) = ''retrying'' \<and> 0 \<notin> set ks)
     \<or> (status (cur r) = ''downloading'' \<and> (\<exists>ks'. ks = 0 # ks' \<and> 0 \<notin> set ks')) \<Longrightarrow>
   (case retry_loop eng url opts q ks le r of Done r' \<Rightarrow> orderly r' | Raised m r' \<Rightarrow> orderly r')"
proof (induction ks arbitrary: le r)
  case Nil
  then show ?case by simp
next
  case (Cons k ks)
  have k: "k = 0 \<or> status (cur r) = ''retrying''" using Cons.prems(2) by auto
  have k0: "k = 0 \<longrightarrow> status (cur r) = ''downloading''" using Cons.prems(2) by auto
  have nz: "0 \<notin> set ks" using Cons.prems(2) by auto
  note t = orderly_try_download[OF Cons.prems(1) k, where eng = eng and url = url and opts = opts
      and q = q]
  show ?case
  proof (cases "try_download eng url opts q k r")
    case (Done r1)
    then show ?thesis using t by simp
  next
    case (Raised m r1)
    then have o1: "orderly r1"
      and s1: "status (cur r1) = status (cur r) \<or> status (cur r1) = ''processing''
               \<or> status (cur r1) = ''completed''"
      using t by simp_all
    let ?r2 = "put (\<lambda>j. j\<lparr>status := ''retrying''\<rparr>) (mark (Slept (2 ^ k)) r1)"
    have "(2::nat) ^ k = 1 \<longrightarrow> status (cur r1) = ''downloading'' \<or> status (cur r1) = ''processing''
            \<or> status (cur r1) = ''completed''"
      using k0 s1 by (auto simp: two_power_one)
    with o1 have o2: "orderly ?r2" by (rule orderly_sleep_retry)
    have "status (cur ?r2) = ''retrying'' \<and> 0 \<notin> set ks" using nz by simp
    then have "case retry_loop eng url opts q ks (Some m) ?r2 of
        Done r' \<Rightarrow> orderly r' | Raised m r' \<Rightarrow> orderly r'"
      using Cons.IH[OF o2] by blast
    then show ?thesis using Raised o1 by (simp add: Let_def)
  qed
qed

lemma orderly_download_video: "orderly (download_video e eng url q)"
proof -
  let ?s = "\<lparr>cur = new_job, log = [\<lparr>act = Wrote, seen = new_job\<rparr>]\<rparr>"
  let ?b = "case fetch_metadata eng url of
              Inl msg \<Rightarrow> Raised msg ?s
            | Inr i \<Rightarrow>
                Done (put (\<lambda>j. j\<lparr>status := ''downloading''\<rparr>)
                  (put (\<lambda>j. j\<lparr>duration := Some (dict_get (info_duration i) 0)\<rparr>)
                    (put (\<lambda>j. j\<lparr>thumbnail := Some (dict_get (info_thumbnail i) [])\<rparr>)
                      (put (\<lambda>j. j\<lparr>title :=
                         sanitize_filename (dict_get (info_title i) (py ''video''))\<rparr>) ?s))))"
  have os: "orderly ?s"
    by (simp add: orderly_def calm_def awake_def new_job_def)
  have eq: "download_body e eng url q ?s
            = (case leave (metadata_exit eng url) ?b of
                 Raised msg r \<Rightarrow> Raised msg r
               | Done r \<Rightarrow> retry_loop eng url (build_ydl_opts e q) q [0..<max_retries] None r)"
    by (cases "fetch_metadata eng url") (simp_all add: download_body_def Let_def)
  have ks: "[0..<max_retries] = [0, 1, 2]"
    by (simp add: max_retries_def range_max_retries)
  have b: "case ?b of
             Raised m r' \<Rightarrow> orderly r'
           | Done r' \<Rightarrow> orderly r' \<and> status (cur r') = ''downloading''"
  proof (cases "fetch_metadata eng url")
    case (Inl m)
    then show ?thesis using os by simp
  next
    case (Inr i)
    let ?r1 = "put (\<lambda>j. j\<lparr>title := sanitize_filename (dict_get (info_title i) (py ''video''))\<rparr>) ?s"
    let ?r2 = "put (\<lambda>j. j\<lparr>thumbnail := Some (dict_get (info_thumbnail i) [])\<rparr>) ?r1"
    let ?r3 = "put (\<lambda>j. j\<lparr>duration := Some (dict_get (info_duration i) 0)\<rparr>) ?r2"
    let ?r4 = "put (\<lambda>j. j\<lparr>status := ''downloading''\<rparr>) ?r3"
    have "orderly ?r4"
      by (simp add: orderly_def calm_def awake_def follows_def no_return_def new_job_def)
    then show ?thesis using Inr by simp
  qed
  have body: "case download_body e eng url q ?s of
                Done r' \<Rightarrow> orderly r' | Raised m r' \<Rightarrow> orderly r'"
  proof (cases "leave (metadata_exit eng url) ?b")
    case (Raised m r1)
    then have "orderly r1"
      using b by (cases "metadata_exit eng url"; cases ?b) (auto simp: leave_cases)
    then show ?thesis using Raised unfolding eq by simp
  next
    case (Done r1)
    then have "orderly r1" and "status (cur r1) = ''downloading''"
      using b by (cases "metadata_exit eng url"; cases ?b; auto simp: leave_cases)+
    then have "case retry_loop eng url (build_ydl_opts e q) q [0..<max_retries] None r1 of
        Done r' \<Rightarrow> orderly r' | Raised m r' \<Rightarrow> orderly r'"
      unfolding ks by (intro orderly_retry_loop) simp_all
    then show ?thesis using Done unfolding eq by (simp del: retry_loop.simps)
  qed
  show ?thesis
  proof (cases "download_body e eng url q ?s")
    case (Done r1)
    then show ?thesis using body by (simp add: download_video_def)
  next
    case (Raised m r1)
    then have o1: "orderly r1" using body by simp
    let ?r2 = "put (\<lambda>j. j\<lparr>status := ''error''\<rparr>) r1"
    let ?r3 = "put (\<lambda>j. j\<lparr>error := Some m\<rparr>) ?r2"
    have "orderly ?r2" using o1 by (rule orderly_put) simp
    then have "orderly ?r3" by (rule orderly_put) simp
    then show ?thesis using Raised by (simp add: download_video_def Let_def)
  qed
qed

section \<open>The status around a wait\<close>

lemma follows_explicit:
  "follows a b = (\<forall>n. act a = Slept n \<longrightarrow> act b = Wrote \<and> status (seen b) = ''retrying'')"
  by (cases "act a") (simp_all add: follows_def)

lemma calm_explicit:
  "calm ev = ((act ev = Slept 1 \<longrightarrow>
                 status (seen ev) = ''downloading'' \<or> status (seen ev) = ''processing''
                 \<or> status (seen ev) = ''completed'')
              \<and> (\<forall>k. act ev = Called (Suc k) \<longrightarrow> status (seen ev) = ''retrying''))"
  by (cases "act ev") (auto simp: calm_def gr0_conv_Suc)

lemma awake_explicit: "awake ev = (\<forall>n. act ev \<noteq> Slept n)"
  by (cases "act ev") (simp_all add: awake_def)

text \<open>
  C5, as amended. The status becomes \<^verbatim>\<open>retrying\<close> only after the wait: every wait is
  followed at once by the assignment of \<^verbatim>\<open>retrying\<close>, and the first wait (of 1) finds
  the status still \<^verbatim>\<open>downloading\<close>, \<^verbatim>\<open>processing\<close> or \<^verbatim>\<open>completed\<close>. Every download call
  after the first starts with the status \<^verbatim>\<open>retrying\<close>. Once \<^verbatim>\<open>retrying\<close> has been observed,
  the status is only ever \<^verbatim>\<open>retrying\<close>, \<^verbatim>\<open>processing\<close>, \<^verbatim>\<open>completed\<close> or \<^verbatim>\<open>error\<close>: it never goes
  back to \<^verbatim>\<open>downloading\<close>.
\<close>

theorem retrying_after_the_wait:
  "successively (\<lambda>a b. \<forall>n. act a = Slept n \<longrightarrow> act b = Wrote \<and> status (seen b) = ''retrying'')
     (trace (download_video e eng url q))
   \<and> (\<forall>n. act (last (trace (download_video e eng url q))) \<noteq> Slept n)
   \<and> (\<forall>ev\<in>set (trace (download_video e eng url q)).
         (act ev = Slept 1 \<longrightarrow>
            status (seen ev) = ''downloading'' \<or> status (seen ev) = ''processing''
            \<or> status (seen ev) = ''completed'')
         \<and> (\<forall>k. act ev = Called (Suc k) \<longrightarrow> status (seen ev) = ''retrying''))
   \<and> sorted_wrt (\<lambda>a b. status (seen a) = ''retrying'' \<longrightarrow>
                    status (seen b) = ''retrying'' \<or> status (seen b) = ''processing''
                    \<or> status (seen b) = ''completed'' \<or> status (seen b) = ''error'')
       (trace (download_video e eng url q))"
proof -
  let ?r = "download_video e eng url q"
  have o: "orderly ?r" by (rule orderly_download_video)
  have 1: "successively (\<lambda>a b. follows a b) (trace ?r)"
    using o by (simp add: orderly_def trace_def)
  have 2: "awake (last (trace ?r))"
    using o by (simp add: orderly_def trace_def last_rev)
  have 3: "\<forall>ev\<in>set (trace ?r). calm ev"
    using o by (simp add: orderly_def trace_def list_all_iff)
  have 4: "sorted_wrt (\<lambda>a b. no_return a b) (trace ?r)"
    using o by (simp add: orderly_def trace_def sorted_wrt_rev)
  note a = 1[unfolded follows_explicit] and b = 2[unfolded awake_explicit]
    and c = 3[unfolded calm_explicit] and d = 4[unfolded no_return_def late_def]
  show ?thesis by (rule conjI[OF a conjI[OF b conjI[OF c d]]])
qed

text \<open>
  C5 as stated fails. In the run of \<open>engine_locked_once\<close> the wait finds the status
  \<^verbatim>\<open>downloading\<close>, not \<^verbatim>\<open>retrying\<close>, and the second download call starts with the status
  \<^verbatim>\<open>retrying\<close>, not \<^verbatim>\<open>downloading\<close>.
\<close>

theorem retrying_during_wait_counterexample:
  "act (trace (download_video example_env engine_locked_once example_url 0) ! 6) = Slept 1
   \<and> status (seen (trace (download_video example_env engine_locked_once example_url 0) ! 6))
       = ''downloading''
   \<and> act (trace (download_video example_env engine_locked_once example_url 0) ! 8) = Called 1
   \<and> status (seen (trace (download_video example_env engine_locked_once example_url 0) ! 8))
       = ''retrying''"
  using nth_of_map[OF engine_locked_once_run, of 6] nth_of_map[OF engine_locked_once_run, of 8]
  by simp

text \<open>
  When the closing of the engine object finds the file locked after a success, the
  wait finds the status \<^verbatim>\<open>completed\<close>, as in the run of \<open>engine_close_locked\<close>.
\<close>

lemma wait_after_closing:
  "act (trace (download_video example_env engine_close_locked example_url 1080) ! 9) = Slept 1
   \<and> status (seen (trace (download_video example_env engine_close_locked example_url 1080) ! 9))
       = ''completed''"
  using nth_of_map[OF engine_close_locked_run, of 9] by simp

theorem retrying_after_the_wait_witness:
  "trace (download_video example_env engine_locked_once example_url 0) ! 6
     \<in> set (trace (download_video example_env engine_locked_once example_url 0))
   \<and> act (trace (download_video example_env engine_locked_once example_url 0) ! 6) = Slept 1
   \<and> (status (seen (trace (download_video example_env engine_locked_once example_url 0) ! 6))
         = ''downloading''
       \<or> status (seen (trace (download_video example_env engine_locked_once example_url 0) ! 6))
         = ''processing''
       \<or> status (seen (trace (download_video example_env engine_locked_once example_url 0) ! 6))
         = ''completed'')
   \<and> act (trace (download_video example_env engine_locked_once example_url 0) ! 7) = Wrote
   \<and> status (seen (trace (download_video example_env engine_locked_once example_url 0) ! 7))
       = ''retrying''
   \<and> act (trace (download_video example_env engine_locked_once example_url 0) ! 8) = Called (Suc 0)
   \<and> status (seen (trace (download_video example_env engine_locked_once example_url 0) ! 8))
       = ''retrying''
   \<and> (status (seen (trace (download_video example_env engine_locked_once example_url 0) ! 10))
         = ''retrying''
       \<or> status (seen (trace (download_video example_env engine_locked_once example_url 0) ! 10))
         = ''processing''
       \<or> status (seen (trace (download_video example_env engine_locked_once example_url 0) ! 10))
         = ''completed''
       \<or> status (seen (trace (download_video example_env engine_locked_once example_url 0) ! 10))
         = ''error'')"
proof -
  let ?t = "trace (download_video example_env engine_locked_once example_url 0)"
  have len: "length ?t = 12" using arg_cong[OF engine_locked_once_run, of length] by simp
  have a: "?t ! 6 \<in> set ?t" "act (?t ! 6) = Slept 1"
    "?t ! 8 \<in> set ?t" "act (?t ! 8) = Called (Suc 0)"
    using nth_of_map[OF engine_locked_once_run, of 6] nth_of_map[OF engine_locked_once_run, of 8]
    by simp_all
  note th = retrying_after_the_wait[of example_env engine_locked_once example_url 0]
  note c = th[THEN conjunct2, THEN conjunct2, THEN conjunct1, rule_format]
  have s: "\<forall>n. act (?t ! 6) = Slept n \<longrightarrow> act (?t ! Suc 6) = Wrote
            \<and> status (seen (?t ! Suc 6)) = ''retrying''"
    using successively_nth[OF th[THEN conjunct1], of 6] len by simp
  then have s7: "act (?t ! 7) = Wrote \<and> status (seen (?t ! 7)) = ''retrying''"
    using a(2) by simp
  have "status (seen (?t ! 7)) = ''retrying'' \<longrightarrow>
          status (seen (?t ! 10)) = ''retrying'' \<or> status (seen (?t ! 10)) = ''processing''
          \<or> status (seen (?t ! 10)) = ''completed'' \<or> status (seen (?t ! 10)) = ''error''"
    using sorted_wrt_nth_less[OF th[THEN conjunct2, THEN conjunct2, THEN conjunct2], of 7 10] len
    by simp
  then have s10: "status (seen (?t ! 10)) = ''retrying'' \<or> status (seen (?t ! 10)) = ''processing''
          \<or> status (seen (?t ! 10)) = ''completed'' \<or> status (seen (?t ! 10)) = ''error''"
    using s7 by simp
  have c6: "status (seen (?t ! 6)) = ''downloading'' \<or> status (seen (?t ! 6)) = ''processing''
            \<or> status (seen (?t ! 6)) = ''completed''"
    using c[OF a(1)] a(2) by simp
  have c8: "status (seen (?t ! 8)) = ''retrying''"
    using c[OF a(3)] a(4) by simp
  show ?thesis using a(1,2,4) c6 c8 s7 s10 by simp
qed

section \<open>The first poll\<close>

text \<open>
  C4, as amended. \<^verbatim>\<open>start_download\<close> leaves the registry as it found it and, for a
  request with a url, returns the download id and starts the thread. The first thing
  the thread does is to store the new record, with status \<^verbatim>\<open>starting\<close>, progress 0 and no
  error; from then on a poll finds the job's latest record. A poll that comes before,
  for an id the registry does not hold, gets 404.
\<close>

theorem record_inserted_by_thread:
  "snd (snd (start_download data i downloads)) = downloads
   \<and> (dict_get (req_url data) [] \<noteq> [] \<longrightarrow>
        fst (start_download data i downloads) = Json_download_id i
        \<and> (\<exists>q. fst (snd (start_download data i downloads))
                 = Some (dict_get (req_url data) [], i, q)))
   \<and> (\<exists>evs. trace (download_video e eng url q) = \<lparr>act = Wrote, seen = new_job\<rparr> # evs)
   \<and> get_progress (store downloads i (take 1 (trace (download_video e eng url q)))) i
       = Json_job new_job
   \<and> status new_job = ''starting'' \<and> progress new_job = 0 \<and> error new_job = None
   \<and> (es \<noteq> [] \<longrightarrow> get_progress (store downloads i es) i = Json_job (seen (last es)))
   \<and> (downloads i = None \<longrightarrow>
        get_progress (store downloads i []) i = Json_error 404 ''Download not found'')"
proof -
  let ?r = "download_video e eng url q"
  have o: "orderly ?r" by (rule orderly_download_video)
  then have ne: "log ?r \<noteq> []" and la: "last (log ?r) = \<lparr>act = Wrote, seen = new_job\<rparr>"
    by (simp_all add: orderly_def)
  have "log ?r = butlast (log ?r) @ [\<lparr>act = Wrote, seen = new_job\<rparr>]"
    using ne la append_butlast_last_id[of "log ?r"] by simp
  then have "rev (log ?r) = rev (butlast (log ?r) @ [\<lparr>act = Wrote, seen = new_job\<rparr>])"
    by (rule arg_cong)
  then have t: "trace ?r = \<lparr>act = Wrote, seen = new_job\<rparr> # rev (butlast (log ?r))"
    by (simp add: trace_def)
  have 1: "snd (snd (start_download data i downloads)) = downloads"
    by (simp add: start_download_def Let_def)
  have 2: "dict_get (req_url data) [] \<noteq> [] \<longrightarrow>
        fst (start_download data i downloads) = Json_download_id i
        \<and> (\<exists>q. fst (snd (start_download data i downloads))
                 = Some (dict_get (req_url data) [], i, q))"
    by (simp add: start_download_def Let_def)
  have 3: "get_progress (store downloads i (take 1 (trace ?r))) i = Json_job new_job"
    unfolding t by (simp add: store_def get_progress_def)
  have 4: "es \<noteq> [] \<longrightarrow> get_progress (store downloads i es) i = Json_job (seen (last es))"
    by (simp add: store_def get_progress_def)
  have 5: "downloads i = None \<longrightarrow>
        get_progress (store downloads i []) i = Json_error 404 ''Download not found''"
    by (simp add: store_def get_progress_def)
  show ?thesis using 1 2 3 4 5 t by (simp add: new_job_def)
qed

text \<open>
  C4 as stated fails: when \<^verbatim>\<open>start_download\<close> has returned the id, the registry it leaves
  does not hold it yet, and a poll gets 404.
\<close>

theorem immediate_poll_counterexample:
  "fst (start_download \<lparr>req_url = Some example_url, req_quality = None\<rparr> (py ''id1'') Map.empty)
     = Json_download_id (py ''id1'')
   \<and> get_progress
        (snd (snd (start_download \<lparr>req_url = Some example_url, req_quality = None\<rparr>
                     (py ''id1'') Map.empty)))
        (py ''id1'')
     = Json_error 404 ''Download not found''"
  by (simp add: start_download_def get_progress_def dict_get_def example_url_def py_def)

theorem record_inserted_by_thread_witness:
  "dict_get (req_url \<lparr>req_url = Some example_url, req_quality = None\<rparr>) [] \<noteq> []
   \<and> fst (start_download \<lparr>req_url = Some example_url, req_quality = None\<rparr> (py ''id1'') Map.empty)
       = Json_download_id (py ''id1'')
   \<and> get_progress (store Map.empty (py ''id1'')
         (take 1 (trace (download_video example_env engine_ok example_url 4320)))) (py ''id1'')
       = Json_job new_job
   \<and> take 2 (trace (download_video example_env engine_ok example_url 4320)) \<noteq> []
   \<and> get_progress (store Map.empty (py ''id1'')
         (take 2 (trace (download_video example_env engine_ok example_url 4320)))) (py ''id1'')
       = Json_job (seen (last (take 2 (trace (download_video example_env engine_ok example_url 4320)))))
   \<and> (Map.empty :: registry) (py ''id1'') = None
   \<and> get_progress (store Map.empty (py ''id1'') []) (py ''id1'')
       = Json_error 404 ''Download not found''"
proof -
  have u: "dict_get (req_url \<lparr>req_url = Some example_url, req_quality = None\<rparr>) [] \<noteq> []"
    by (simp add: dict_get_def example_url_def py_def)
  note w = record_inserted_by_thread[where data = "\<lparr>req_url = Some example_url, req_quality = None\<rparr>"
        and i = "py ''id1''" and downloads = Map.empty and e = example_env and eng = engine_ok
        and url = example_url and q = 4320
        and es = "take 2 (trace (download_video example_env engine_ok example_url 4320))"]
  have "\<exists>evs. trace (download_video example_env engine_ok example_url 4320)
      = \<lparr>act = Wrote, seen = new_job\<rparr> # evs"
    using w by (elim conjE)
  then have n: "take 2 (trace (download_video example_env engine_ok example_url 4320)) \<noteq> []"
    by auto
  have a: "fst (start_download \<lparr>req_url = Some example_url, req_quality = None\<rparr> (py ''id1'') Map.empty)
       = Json_download_id (py ''id1'')"
    using w u by (elim conjE) simp
  have b: "get_progress (store Map.empty (py ''id1'')
         (take 1 (trace (download_video example_env engine_ok example_url 4320)))) (py ''id1'')
       = Json_job new_job"
    using w by (elim conjE)
  have c: "get_progress (store Map.empty (py ''id1'')
         (take 2 (trace (download_video example_env engine_ok example_url 4320)))) (py ''id1'')
       = Json_job (seen (last (take 2 (trace (download_video example_env engine_ok example_url 4320)))))"
    using w n by (elim conjE) simp
  have d: "get_progress (store Map.empty (py ''id1'') []) (py ''id1'')
       = Json_error 404 ''Download not found''"
    using w by (elim conjE) simp
  show ?thesis using u a b c d n by simp
qed

section \<open>The file endpoint\<close>

lemma mp3_name_endswith:
  "endswith (lower (basename (x @ py ''.mp3''))) (py ''.mp3'')"
proof -
  let ?m = "py ''.mp3''"
  have m: "?m = [46, 109, 112, 51]" by (simp add: py_def)
  have "rev (x @ ?m) = rev ?m @ rev x" by simp
  moreover have "takeWhile (\<lambda>c. c \<noteq> 47) (rev ?m @ rev x)
      = rev ?m @ takeWhile (\<lambda>c. c \<noteq> 47) (rev x)"
    by (rule takeWhile_append2) (auto simp: m)
  ultimately have b: "basename (x @ ?m) = rev (takeWhile (\<lambda>c. c \<noteq> 47) (rev x)) @ ?m"
    by (simp add: basename_def)
  have l: "lower (rev (takeWhile (\<lambda>c. c \<noteq> 47) (rev x)) @ ?m)
      = lower (rev (takeWhile (\<lambda>c. c \<noteq> 47) (rev x))) @ ?m"
    by (simp add: lower_def m)
  show ?thesis unfolding b l by (simp add: endswith_def)
qed

lemma audio_job_filename:
  assumes "status (cur (download_video e eng url 0)) = ''completed''"
  shows "\<exists>x. filename (cur (download_video e eng url 0)) = x @ py ''.mp3''"
proof -
  let ?r = "download_video e eng url 0"
  have names: "\<forall>k n. outcome (download_call eng url (build_ydl_opts e 0) k) = Inr n
             \<longrightarrow> (\<exists>x. final_name 0 n = x @ py ''.mp3'')"
    by (simp add: final_name_def)
  obtain evs where "trace ?r = evs @ [\<lparr>act = Wrote, seen = cur ?r\<rparr>]"
    using last_event_is_record by blast
  then have ev: "\<lparr>act = Wrote, seen = cur ?r\<rparr> \<in> set (trace ?r)" by simp
  show ?thesis
    using sound_records[where P = "\<lambda>f. \<exists>x. f = x @ py ''.mp3''", OF names ev] assms
    by simp
qed

text \<open>
  C9. \<^verbatim>\<open>GET /api/file/<id>\<close> answers 404 for an unknown id, 400 for a job whose status
  is not \<^verbatim>\<open>completed\<close>, 404 for a completed job whose file is not on disk, and otherwise
  serves the job's file, as \<^verbatim>\<open>audio/mpeg\<close> when its name ends in \<^verbatim>\<open>.mp3\<close> and as
  \<^verbatim>\<open>video/mp4\<close> when it does not. A file is served only for a completed job. The
  file of a completed audio-only job (quality 0) is always served as \<^verbatim>\<open>audio/mpeg\<close>.
\<close>

theorem get_file_statuses:
  "(downloads i = None \<longrightarrow> get_file e downloads i = Json_error 404 ''Download not found'')
   \<and> (downloads i = Some d \<and> status d \<noteq> ''completed'' \<longrightarrow>
        get_file e downloads i = Json_error 400 ''Download not completed'')
   \<and> (downloads i = Some d \<and> status d = ''completed'' \<and> \<not> path_exists e (filename d) \<longrightarrow>
        get_file e downloads i = Json_error 404 ''File not found'')
   \<and> (downloads i = Some d \<and> status d = ''completed'' \<and> path_exists e (filename d) \<longrightarrow>
        (\<exists>f. get_file e downloads i = Send_file f \<and> served_path f = filename d
           \<and> mimetype f = (if endswith (lower (basename (filename d))) (py ''.mp3'')
                            then ''audio/mpeg'' else ''video/mp4'')))
   \<and> (get_file e downloads i = Send_file f \<longrightarrow>
        (\<exists>d. downloads i = Some d \<and> status d = ''completed'' \<and> path_exists e (filename d)))
   \<and> (downloads i = Some (cur (download_video e eng url 0))
        \<and> status (cur (download_video e eng url 0)) = ''completed''
        \<and> path_exists e (filename (cur (download_video e eng url 0))) \<longrightarrow>
        (\<exists>f. get_file e downloads i = Send_file f \<and> mimetype f = ''audio/mpeg''))"
proof -
  have 1: "(downloads i = None \<longrightarrow> get_file e downloads i = Json_error 404 ''Download not found'')
   \<and> (downloads i = Some d \<and> status d \<noteq> ''completed'' \<longrightarrow>
        get_file e downloads i = Json_error 400 ''Download not completed'')
   \<and> (downloads i = Some d \<and> status d = ''completed'' \<and> \<not> path_exists e (filename d) \<longrightarrow>
        get_file e downloads i = Json_error 404 ''File not found'')
   \<and> (downloads i = Some d \<and> status d = ''completed'' \<and> path_exists e (filename d) \<longrightarrow>
        (\<exists>f. get_file e downloads i = Send_file f \<and> served_path f = filename d
           \<and> mimetype f = (if endswith (lower (basename (filename d))) (py ''.mp3'')
                            then ''audio/mpeg'' else ''video/mp4'')))
   \<and> (get_file e downloads i = Send_file f \<longrightarrow>
        (\<exists>d. downloads i = Some d \<and> status d = ''completed'' \<and> path_exists e (filename d)))"
    by (auto simp: get_file_def Let_def split: option.splits if_splits)
  have 2: "downloads i = Some (cur (download_video e eng url 0))
        \<and> status (cur (download_video e eng url 0)) = ''completed''
        \<and> path_exists e (filename (cur (download_video e eng url 0))) \<longrightarrow>
        (\<exists>f. get_file e downloads i = Send_file f \<and> mimetype f = ''audio/mpeg'')"
  proof
    assume a: "downloads i = Some (cur (download_video e eng url 0))
        \<and> status (cur (download_video e eng url 0)) = ''completed''
        \<and> path_exists e (filename (cur (download_video e eng url 0)))"
    then obtain x where "filename (cur (download_video e eng url 0)) = x @ py ''.mp3''"
      using audio_job_filename by blast
    then have "endswith (lower (basename (filename (cur (download_video e eng url 0))))) (py ''.mp3'')"
      using mp3_name_endswith by simp
    then show "\<exists>f. get_file e downloads i = Send_file f \<and> mimetype f = ''audio/mpeg''"
      using a by (simp add: get_file_def Let_def)
  qed
  show ?thesis using 1 2 by (rule conjI[OF 1[THEN conjunct1]] | simp)+
qed

lemma example_registry_lookup:
  "example_registry (py ''z'') = None"
  "example_registry (py ''a'') = Some (new_job\<lparr>status := ''downloading''\<rparr>)"
  "example_registry (py ''b'') = Some (new_job\<lparr>status := ''completed'', filename := py ''/srv/gone.mp4''\<rparr>)"
  "example_registry (py ''c'') = Some (new_job\<lparr>status := ''completed'', filename := py ''/srv/song.MP3''\<rparr>)"
  "example_registry (py ''d'') = Some (new_job\<lparr>status := ''completed'', filename := py ''/srv/clip.webm''\<rparr>)"
  by (simp_all add: example_registry_def py_def)

lemma example_mimetypes:
  "endswith (lower (basename (py ''/srv/song.MP3''))) (py ''.mp3'')"
  "\<not> endswith (lower (basename (py ''/srv/clip.webm''))) (py ''.mp3'')"
  by (simp_all add: endswith_def lower_def basename_def py_def)

theorem get_file_statuses_witness:
  "get_file example_env example_registry (py ''z'') = Json_error 404 ''Download not found''
   \<and> get_file example_env example_registry (py ''a'') = Json_error 400 ''Download not completed''
   \<and> get_file example_env example_registry (py ''b'') = Json_error 404 ''File not found''
   \<and> (\<exists>f. get_file example_env example_registry (py ''c'') = Send_file f
          \<and> served_path f = py ''/srv/song.MP3'' \<and> mimetype f = ''audio/mpeg'')
   \<and> (\<exists>f. get_file example_env example_registry (py ''d'') = Send_file f
          \<and> served_path f = py ''/srv/clip.webm'' \<and> mimetype f = ''video/mp4'')
   \<and> (\<exists>f. get_file example_env
            [py ''e'' \<mapsto> cur (download_video example_env engine_locked_once example_url 0)]
            (py ''e'') = Send_file f
          \<and> mimetype f = ''audio/mpeg'')"
proof -
  have a: "\<exists>f. get_file example_env
            [py ''e'' \<mapsto> cur (download_video example_env engine_locked_once example_url 0)]
            (py ''e'') = Send_file f
          \<and> mimetype f = ''audio/mpeg''"
  proof (rule get_file_statuses[where e = example_env and eng = engine_locked_once
        and url = example_url and i = "py ''e''"
        and downloads = "[py ''e'' \<mapsto> cur (download_video example_env engine_locked_once example_url 0)]",
        THEN conjunct2, THEN conjunct2, THEN conjunct2, THEN conjunct2, THEN conjunct2, THEN mp])
    have "path_exists example_env (py ''/srv/My Clip.mp3'')" by (simp add: example_env_def)
    then show "[py ''e'' \<mapsto> cur (download_video example_env engine_locked_once example_url 0)] (py ''e'')
          = Some (cur (download_video example_env engine_locked_once example_url 0))
        \<and> status (cur (download_video example_env engine_locked_once example_url 0)) = ''completed''
        \<and> path_exists example_env (filename (cur (download_video example_env engine_locked_once example_url 0)))"
      by (simp add: engine_locked_once_final)
  qed
  have b: "get_file example_env example_registry (py ''z'') = Json_error 404 ''Download not found''
   \<and> get_file example_env example_registry (py ''a'') = Json_error 400 ''Download not completed''
   \<and> get_file example_env example_registry (py ''b'') = Json_error 404 ''File not found''
   \<and> (\<exists>f. get_file example_env example_registry (py ''c'') = Send_file f
          \<and> served_path f = py ''/srv/song.MP3'' \<and> mimetype f = ''audio/mpeg'')
   \<and> (\<exists>f. get_file example_env example_registry (py ''d'') = Send_file f
          \<and> served_path f = py ''/srv/clip.webm'' \<and> mimetype f = ''video/mp4'')"
  proof -
  have e: "\<not> path_exists example_env (py ''/srv/gone.mp4'')"
    "path_exists example_env (py ''/srv/song.MP3'')"
    "path_exists example_env (py ''/srv/clip.webm'')"
    by (simp_all add: example_env_def py_def)
  show ?thesis
    using get_file_statuses[where downloads = example_registry and i = "py ''z''" and e = example_env]
      get_file_statuses[where downloads = example_registry and i = "py ''a''" and e = example_env
        and d = "new_job\<lparr>status := ''downloading''\<rparr>"]
      get_file_statuses[where downloads = example_registry and i = "py ''b''" and e = example_env
        and d = "new_job\<lparr>status := ''completed'', filename := py ''/srv/gone.mp4''\<rparr>"]
      get_file_statuses[where downloads = example_registry and i = "py ''c''" and e = example_env
        and d = "new_job\<lparr>status := ''completed'', filename := py ''/srv/song.MP3''\<rparr>"]
      get_file_statuses[where downloads = example_registry and i = "py ''d''" and e = example_env
        and d = "new_job\<lparr>status := ''completed'', filename := py ''/srv/clip.webm''\<rparr>"]
      e example_mimetypes
    by (simp add: example_registry_lookup new_job_def)
  qed
  show ?thesis using a b by simp
qed

end
